theory Spec2Isabelle
  imports Complex_Main "HOL-Library.AList" "HOL-Library.Sublist" "HOL-Library.Product_Lexorder"
begin

section \<open>Python strings\<close>

text \<open>
  A Python \<open>str\<close> is modelled as a \<open>string\<close> whose characters are the code points
  0..255 (Latin-1); code points beyond that are outside the model. The character classes
  below are the ones CPython uses for \<open>str.isspace\<close>, \<open>str.split()\<close> and the
  regular-expression classes \<open>\s\<close>, \<open>\w\<close> and \<open>\d\<close> on \<open>str\<close> patterns, restricted
  to that range. Python floats that are quotients of small integers are modelled as
  rationals (\<open>rat\<close>): every comparison the code makes between them has the same outcome.
\<close>

definition py_isspace :: "char \<Rightarrow> bool" where
  "py_isspace c =
     (let n = (of_char c :: nat)
      in (9 \<le> n \<and> n \<le> 13) \<or> (28 \<le> n \<and> n \<le> 32) \<or> n = 133 \<or> n = 160)"

definition py_isdigit :: "char \<Rightarrow> bool" where
  "py_isdigit c = (let n = (of_char c :: nat) in 48 \<le> n \<and> n \<le> 57)"

definition py_isword :: "char \<Rightarrow> bool" where
  "py_isword c =
     (let n = (of_char c :: nat)
      in (48 \<le> n \<and> n \<le> 57) \<or> (65 \<le> n \<and> n \<le> 90) \<or> n = 95 \<or> (97 \<le> n \<and> n \<le> 122)
         \<or> n = 170 \<or> n = 178 \<or> n = 179 \<or> n = 181 \<or> n = 185 \<or> n = 186
         \<or> (188 \<le> n \<and> n \<le> 190) \<or> (192 \<le> n \<and> n \<le> 214) \<or> (216 \<le> n \<and> n \<le> 246)
         \<or> (248 \<le> n \<and> n \<le> 255))"

definition py_lower_char :: "char \<Rightarrow> char" where
  "py_lower_char c =
     (let n = (of_char c :: nat)
      in if (65 \<le> n \<and> n \<le> 90) \<or> (192 \<le> n \<and> n \<le> 214) \<or> (216 \<le> n \<and> n \<le> 222)
         then char_of (n + 32) else c)"

definition py_lower :: "string \<Rightarrow> string" where
  "py_lower s = map py_lower_char s"

text \<open>\<open>str.split()\<close> without arguments: the maximal runs of non-whitespace characters.\<close>

fun split_acc :: "string \<Rightarrow> string \<Rightarrow> string list" where
  "split_acc cur [] = (if cur = [] then [] else [rev cur])"
| "split_acc cur (c # cs) =
     (if py_isspace c then (if cur = [] then split_acc [] cs else rev cur # split_acc [] cs)
      else split_acc (c # cur) cs)"

definition py_split :: "string \<Rightarrow> string list" where
  "py_split s = split_acc [] s"

text \<open>\<open>' '.join(words)\<close>.\<close>

fun join_space :: "string list \<Rightarrow> string" where
  "join_space [] = []"
| "join_space [w] = w"
| "join_space (w # v # ws) = w @ CHR '' '' # join_space (v # ws)"

text \<open>\<open>x in s\<close> on strings is the contiguous-substring test, \<^const>\<open>sublist\<close>.\<close>

definition py_in :: "string \<Rightarrow> string \<Rightarrow> bool" where
  "py_in x s = sublist x s"

section \<open>\<open>difflib.SequenceMatcher(None, a, b).ratio()\<close>\<close>

text \<open>
  The matcher is built with \<open>isjunk = None\<close> and the default \<open>autojunk = True\<close>: the junk
  set is empty, so the two junk-extension loops at the end of \<open>find_longest_match\<close> never
  iterate and are left out; in a second sequence of 200 or more elements, the elements
  that occur more than \<open>n // 100 + 1\<close> times are removed from \<open>b2j\<close>.
\<close>

definition b2j_get :: "string \<Rightarrow> char \<Rightarrow> nat list" where
  "b2j_get b c =
     (let idxs = filter (\<lambda>j. b ! j = c) [0..<length b]; n = length b
      in if 200 \<le> n \<and> n div 100 + 1 < length idxs then [] else idxs)"

text \<open>\<open>j2len.get(j - 1, 0)\<close>: the key \<open>-1\<close> is never present.\<close>

definition j2len_get :: "(nat \<times> nat) list \<Rightarrow> nat \<Rightarrow> nat" where
  "j2len_get j2len j =
     (if j = 0 then 0 else (case map_of j2len (j - 1) of None \<Rightarrow> 0 | Some k \<Rightarrow> k))"

text \<open>The inner loop \<open>for j in b2j.get(a[i], nothing)\<close>, with its \<open>continue\<close> and \<open>break\<close>.\<close>

fun flm_inner ::
  "(nat \<times> nat) list \<Rightarrow> nat \<Rightarrow> nat \<Rightarrow> nat \<Rightarrow> nat list \<Rightarrow>
   (nat \<times> nat) list \<times> nat \<times> nat \<times> nat \<Rightarrow> (nat \<times> nat) list \<times> nat \<times> nat \<times> nat" where
  "flm_inner j2len i blo bhi [] st = st"
| "flm_inner j2len i blo bhi (j # js) (newj2len, besti, bestj, bestsize) =
     (if j < blo then flm_inner j2len i blo bhi js (newj2len, besti, bestj, bestsize)
      else if bhi \<le> j then (newj2len, besti, bestj, bestsize)
      else
        (let k = j2len_get j2len j + 1
         in if bestsize < k
            then flm_inner j2len i blo bhi js ((j, k) # newj2len, i + 1 - k, j + 1 - k, k)
            else flm_inner j2len i blo bhi js ((j, k) # newj2len, besti, bestj, bestsize)))"

text \<open>The outer loop \<open>for i in range(alo, ahi)\<close>.\<close>

fun flm_outer ::
  "string \<Rightarrow> string \<Rightarrow> nat \<Rightarrow> nat \<Rightarrow> nat list \<Rightarrow>
   (nat \<times> nat) list \<times> nat \<times> nat \<times> nat \<Rightarrow> (nat \<times> nat) list \<times> nat \<times> nat \<times> nat" where
  "flm_outer a b blo bhi [] st = st"
| "flm_outer a b blo bhi (i # is) (j2len, besti, bestj, bestsize) =
     flm_outer a b blo bhi is
       (flm_inner j2len i blo bhi (b2j_get b (a ! i)) ([], besti, bestj, bestsize))"

text \<open>The two loops that extend the best match by equal elements on each end.\<close>

function extend_left :: "string \<Rightarrow> string \<Rightarrow> nat \<Rightarrow> nat \<Rightarrow> nat \<times> nat \<times> nat \<Rightarrow> nat \<times> nat \<times> nat" where
  "extend_left a b alo blo (besti, bestj, bestsize) =
     (if alo < besti \<and> blo < bestj \<and> a ! (besti - 1) = b ! (bestj - 1)
      then extend_left a b alo blo (besti - 1, bestj - 1, bestsize + 1)
      else (besti, bestj, bestsize))"
  by pat_completeness auto

termination
  by (relation "measure (\<lambda>(a, b, alo, blo, besti, bestj, bestsize). besti)") auto

function extend_right :: "string \<Rightarrow> string \<Rightarrow> nat \<Rightarrow> nat \<Rightarrow> nat \<times> nat \<times> nat \<Rightarrow> nat \<times> nat \<times> nat" where
  "extend_right a b ahi bhi (besti, bestj, bestsize) =
     (if besti + bestsize < ahi \<and> bestj + bestsize < bhi
         \<and> a ! (besti + bestsize) = b ! (bestj + bestsize)
      then extend_right a b ahi bhi (besti, bestj, bestsize + 1)
      else (besti, bestj, bestsize))"
  by pat_completeness auto

termination
  by (relation "measure (\<lambda>(a, b, ahi, bhi, besti, bestj, bestsize). ahi - (besti + bestsize))") auto

definition find_longest_match ::
  "string \<Rightarrow> string \<Rightarrow> nat \<Rightarrow> nat \<Rightarrow> nat \<Rightarrow> nat \<Rightarrow> nat \<times> nat \<times> nat" where
  "find_longest_match a b alo ahi blo bhi =
     extend_right a b ahi bhi
       (extend_left a b alo blo (snd (flm_outer a b blo bhi [alo..<ahi] ([], alo, blo, 0))))"

subsection \<open>The match found by \<open>find_longest_match\<close> lies inside the two ranges\<close>

text \<open>
  These bounds are what makes the loop of \<open>get_matching_blocks\<close> terminate; they also
  bound the number of matched characters.
\<close>

declare extend_left.simps [simp del] extend_right.simps [simp del]

definition row_ok :: "nat \<Rightarrow> nat \<Rightarrow> nat \<Rightarrow> (nat \<times> nat) list \<Rightarrow> bool" where
  "row_ok alo blo n j2len = (\<forall>(j, k) \<in> set j2len. blo \<le> j \<and> k \<le> j + 1 - blo \<and> k \<le> n)"

definition best_ok :: "nat \<Rightarrow> nat \<Rightarrow> nat \<Rightarrow> nat \<Rightarrow> nat \<times> nat \<times> nat \<Rightarrow> bool" where
  "best_ok alo ahi blo bhi best =
     (case best of (bi, bj, bs) \<Rightarrow>
        alo \<le> bi \<and> blo \<le> bj \<and> bi + bs \<le> max alo ahi \<and> bj + bs \<le> max blo bhi)"

lemma j2len_get_le:
  assumes "row_ok alo blo n j2len" "blo \<le> j"
  shows "j2len_get j2len j \<le> n \<and> j2len_get j2len j + 1 \<le> j + 1 - blo"
proof (cases "j = 0")
  case True
  then show ?thesis using assms(2) by (simp add: j2len_get_def)
next
  case False
  show ?thesis
  proof (cases "map_of j2len (j - 1)")
    case None
    then show ?thesis using False assms by (simp add: j2len_get_def)
  next
    case (Some k)
    then have "(j - 1, k) \<in> set j2len" by (rule map_of_SomeD)
    with assms(1) have "blo \<le> j - 1 \<and> k \<le> j - 1 + 1 - blo \<and> k \<le> n"
      by (auto simp: row_ok_def)
    then show ?thesis using False Some by (auto simp: j2len_get_def)
  qed
qed

lemma flm_inner_ok:
  assumes "row_ok alo blo (i - alo) j2len" "alo \<le> i" "i < ahi"
    and "row_ok alo blo (i + 1 - alo) new" "best_ok alo ahi blo bhi best"
    and "flm_inner j2len i blo bhi js (new, best) = (new', best')"
  shows "row_ok alo blo (i + 1 - alo) new' \<and> best_ok alo ahi blo bhi best'"
  using assms(4-6)
proof (induction js arbitrary: new best)
  case Nil
  then show ?case by simp
next
  case (Cons j js)
  obtain bi bj bs where best: "best = (bi, bj, bs)" by (cases best)
  show ?case
  proof (cases "j < blo")
    case True
    with Cons best show ?thesis by simp
  next
    case nlt: False
    show ?thesis
    proof (cases "bhi \<le> j")
      case True
      with Cons nlt best show ?thesis by simp
    next
      case False
      define k where "k = j2len_get j2len j + 1"
      from nlt have bj: "blo \<le> j" by simp
      from j2len_get_le[OF assms(1) bj] have k1: "k \<le> i - alo + 1" and k2: "k \<le> j + 1 - blo"
        by (simp_all add: k_def)
      have kpos: "0 < k" by (simp add: k_def)
      have new_ok: "row_ok alo blo (i + 1 - alo) ((j, k) # new)"
        using Cons.prems(1) k1 k2 bj assms(2) by (auto simp: row_ok_def)
      have best_new: "best_ok alo ahi blo bhi (i + 1 - k, j + 1 - k, k)"
        using k1 k2 kpos bj assms(2,3) False by (auto simp: best_ok_def)
      show ?thesis
      proof (cases "bs < k")
        case True
        with Cons.prems(3) nlt False best
        have "flm_inner j2len i blo bhi js ((j, k) # new, i + 1 - k, j + 1 - k, k) = (new', best')"
          by (simp add: k_def Let_def)
        from Cons.IH[OF new_ok best_new this] show ?thesis .
      next
        case nb: False
        with Cons.prems(3) nlt False best
        have "flm_inner j2len i blo bhi js ((j, k) # new, best) = (new', best')"
          by (simp add: k_def Let_def)
        from Cons.IH[OF new_ok Cons.prems(2) this] show ?thesis .
      qed
    qed
  qed
qed

lemma flm_outer_ok:
  assumes "row_ok alo blo (i - alo) j2len" "alo \<le> i" "best_ok alo ahi blo bhi best"
  shows "best_ok alo ahi blo bhi (snd (flm_outer a b blo bhi [i..<ahi] (j2len, best)))"
  using assms
proof (induction "ahi - i" arbitrary: i j2len best)
  case 0
  then show ?case by simp
next
  case (Suc n)
  then have lt: "i < ahi" by simp
  obtain bi bj bs where best: "best = (bi, bj, bs)" by (cases best)
  obtain new' best' where r:
    "flm_inner j2len i blo bhi (b2j_get b (a ! i)) ([], best) = (new', best')"
    by (cases "flm_inner j2len i blo bhi (b2j_get b (a ! i)) ([], best)")
  have e: "row_ok alo blo (i + 1 - alo) []" by (simp add: row_ok_def)
  from flm_inner_ok[OF Suc.prems(1) Suc.prems(2) lt e Suc.prems(3) r]
  have ok: "row_ok alo blo (Suc i - alo) new'" "best_ok alo ahi blo bhi best'" by simp_all
  have "n = ahi - Suc i" using Suc.hyps(2) by simp
  from Suc.hyps(1)[OF this ok(1) _ ok(2)] Suc.prems(2)
  have "best_ok alo ahi blo bhi (snd (flm_outer a b blo bhi [Suc i..<ahi] (new', best')))" by simp
  then show ?case using lt r best by (simp add: upt_conv_Cons)
qed

lemma extend_left_ok:
  "best_ok alo ahi blo bhi best \<Longrightarrow> best_ok alo ahi blo bhi (extend_left a b alo blo best)"
proof (induction a b alo blo best rule: extend_left.induct)
  case (1 a b alo blo besti bestj bestsize)
  show ?case
  proof (cases "alo < besti \<and> blo < bestj \<and> a ! (besti - 1) = b ! (bestj - 1)")
    case True
    then have "best_ok alo ahi blo bhi (besti - 1, bestj - 1, bestsize + 1)"
      using "1.prems" by (auto simp: best_ok_def)
    from "1.IH"[OF True this] True show ?thesis by (subst extend_left.simps) simp
  next
    case False
    with "1.prems" show ?thesis by (subst extend_left.simps) (simp only: if_False)
  qed
qed

lemma extend_right_ok:
  "best_ok alo ahi blo bhi best \<Longrightarrow> best_ok alo ahi blo bhi (extend_right a b ahi bhi best)"
proof (induction a b ahi bhi best rule: extend_right.induct)
  case (1 a b ahi bhi besti bestj bestsize)
  show ?case
  proof (cases "besti + bestsize < ahi \<and> bestj + bestsize < bhi
         \<and> a ! (besti + bestsize) = b ! (bestj + bestsize)")
    case True
    then have "best_ok alo ahi blo bhi (besti, bestj, bestsize + 1)"
      using "1.prems" by (auto simp: best_ok_def)
    from "1.IH"[OF True this] True show ?thesis by (subst extend_right.simps) simp
  next
    case False
    with "1.prems" show ?thesis by (subst extend_right.simps) (simp only: if_False)
  qed
qed

lemma find_longest_match_ok:
  "best_ok alo ahi blo bhi (find_longest_match a b alo ahi blo bhi)"
proof -
  have "row_ok alo blo (alo - alo) []" by (simp add: row_ok_def)
  moreover have "best_ok alo ahi blo bhi (alo, blo, 0)" by (simp add: best_ok_def)
  ultimately have "best_ok alo ahi blo bhi (snd (flm_outer a b blo bhi [alo..<ahi] ([], alo, blo, 0)))"
    by (intro flm_outer_ok) simp_all
  then show ?thesis
    unfolding find_longest_match_def by (intro extend_right_ok extend_left_ok)
qed

lemma find_longest_match_bounds:
  assumes "find_longest_match a b alo ahi blo bhi = (i, j, k)" "k \<noteq> 0"
  shows "alo \<le> i \<and> i + k \<le> ahi \<and> blo \<le> j \<and> j + k \<le> bhi"
proof -
  from find_longest_match_ok[of alo ahi blo bhi a b] assms(1)
  have "alo \<le> i \<and> blo \<le> j \<and> i + k \<le> max alo ahi \<and> j + k \<le> max blo bhi"
    by (simp add: best_ok_def)
  with assms(2) show ?thesis by (auto simp: max_def split: if_splits)
qed

subsection \<open>\<open>get_matching_blocks\<close> and \<open>ratio\<close>\<close>

text \<open>
  The \<open>while queue\<close> loop of \<open>get_matching_blocks\<close>. The queue is a stack
  (\<open>queue.pop()\<close> takes the last element): its top is the head of the list.
\<close>

definition queue_weight :: "(nat \<times> nat \<times> nat \<times> nat) list \<Rightarrow> nat" where
  "queue_weight q = sum_list (map (\<lambda>(alo, ahi, blo, bhi). 2 * (ahi - alo) + 1) q)"

function gmb_loop ::
  "string \<Rightarrow> string \<Rightarrow> (nat \<times> nat \<times> nat \<times> nat) list \<Rightarrow> (nat \<times> nat \<times> nat) list \<Rightarrow>
   (nat \<times> nat \<times> nat) list" where
  "gmb_loop a b [] blocks = blocks"
| "gmb_loop a b ((alo, ahi, blo, bhi) # queue) blocks =
     (case find_longest_match a b alo ahi blo bhi of
        (i, j, k) \<Rightarrow>
          if k \<noteq> 0
          then gmb_loop a b
                 ((if i + k < ahi \<and> j + k < bhi then [(i + k, ahi, j + k, bhi)] else [])
                  @ (if alo < i \<and> blo < j then [(alo, i, blo, j)] else []) @ queue)
                 (blocks @ [(i, j, k)])
          else gmb_loop a b queue blocks)"
  by pat_completeness auto

termination gmb_loop
proof (relation "measure (\<lambda>(a, b, q, blocks). queue_weight q)", goal_cases)
  case 1
  show ?case by simp
next
  case (2 a b alo ahi blo bhi queue blocks i y j k)
  then have "find_longest_match a b alo ahi blo bhi = (i, j, k)" by simp
  from find_longest_match_bounds[OF this] 2
  show ?case by (auto simp: queue_weight_def)
next
  case 3
  then show ?case by (simp add: queue_weight_def)
qed

declare gmb_loop.simps [simp del]

text \<open>The loop that merges adjacent blocks of the sorted list.\<close>

fun collapse ::
  "(nat \<times> nat \<times> nat) list \<Rightarrow> nat \<times> nat \<times> nat \<Rightarrow> (nat \<times> nat \<times> nat) list \<Rightarrow>
   (nat \<times> nat \<times> nat) list" where
  "collapse [] (i1, j1, k1) non_adjacent =
     (if k1 \<noteq> 0 then non_adjacent @ [(i1, j1, k1)] else non_adjacent)"
| "collapse ((i2, j2, k2) # blocks) (i1, j1, k1) non_adjacent =
     (if i1 + k1 = i2 \<and> j1 + k1 = j2 then collapse blocks (i1, j1, k1 + k2) non_adjacent
      else collapse blocks (i2, j2, k2)
             (if k1 \<noteq> 0 then non_adjacent @ [(i1, j1, k1)] else non_adjacent))"

definition get_matching_blocks :: "string \<Rightarrow> string \<Rightarrow> (nat \<times> nat \<times> nat) list" where
  "get_matching_blocks a b =
     collapse (sort (gmb_loop a b [(0, length a, 0, length b)] [])) (0, 0, 0) []
     @ [(length a, length b, 0)]"

definition calculate_ratio :: "nat \<Rightarrow> nat \<Rightarrow> rat" where
  "calculate_ratio matches len = (if len \<noteq> 0 then 2 * of_nat matches / of_nat len else 1)"

definition ratio :: "string \<Rightarrow> string \<Rightarrow> rat" where
  "ratio a b =
     calculate_ratio (sum_list (map (\<lambda>(i, j, k). k) (get_matching_blocks a b)))
       (length a + length b)"

section \<open>The regular expressions of the id stage\<close>

text \<open>
  The subset of Python's \<open>re\<close> that the seven id patterns use, matched as \<open>re\<close> does: by
  backtracking, greedy repetitions and options first. A pattern is a sequence of items.
\<close>

datatype cls = Space | Digit

datatype rx =
    Boundary
  | Lit string
  | Plus cls
  | Star cls
  | Opt "rx list"
  | Alt "string list"
  | Group "rx list"

fun in_cls :: "cls \<Rightarrow> char \<Rightarrow> bool" where
  "in_cls Space c = py_isspace c"
| "in_cls Digit c = py_isdigit c"

text \<open>\<open>\b\<close>: exactly one side of the position is a word character.\<close>

definition at_boundary :: "string \<Rightarrow> nat \<Rightarrow> bool" where
  "at_boundary s pos =
     ((0 < pos \<and> pos \<le> length s \<and> py_isword (s ! (pos - 1)))
      \<noteq> (pos < length s \<and> py_isword (s ! pos)))"

definition lit_at :: "string \<Rightarrow> string \<Rightarrow> nat \<Rightarrow> bool" where
  "lit_at l s pos = (take (length l) (drop pos s) = l)"

fun first_some :: "('a \<Rightarrow> 'r option) \<Rightarrow> 'a list \<Rightarrow> 'r option" where
  "first_some f [] = None"
| "first_some f (x # xs) = (case f x of Some r \<Rightarrow> Some r | None \<Rightarrow> first_some f xs)"

text \<open>
  A greedy repetition of a character class takes the longest run first and gives
  characters back one at a time, down to \<open>lo\<close> of them.
\<close>

definition greedy ::
  "cls \<Rightarrow> nat \<Rightarrow> string \<Rightarrow> nat \<Rightarrow> (nat \<Rightarrow> 'r option) \<Rightarrow> 'r option" where
  "greedy c lo s pos k =
     (let n = length (takeWhile (in_cls c) (drop pos s))
      in first_some (\<lambda>m. k (pos + m)) (rev [lo..<Suc n]))"

text \<open>
  The matcher, in continuation-passing style: \<open>k\<close> is the rest of the pattern, given the
  position reached and the span of group 1, if one was captured.
\<close>

fun match_item ::
  "rx \<Rightarrow> string \<Rightarrow> nat \<Rightarrow> (nat \<times> nat) option \<Rightarrow>
   (nat \<Rightarrow> (nat \<times> nat) option \<Rightarrow> 'r option) \<Rightarrow> 'r option"
and match_seq ::
  "rx list \<Rightarrow> string \<Rightarrow> nat \<Rightarrow> (nat \<times> nat) option \<Rightarrow>
   (nat \<Rightarrow> (nat \<times> nat) option \<Rightarrow> 'r option) \<Rightarrow> 'r option" where
  "match_item Boundary s pos cap k = (if at_boundary s pos then k pos cap else None)"
| "match_item (Lit l) s pos cap k = (if lit_at l s pos then k (pos + length l) cap else None)"
| "match_item (Plus c) s pos cap k = greedy c 1 s pos (\<lambda>p. k p cap)"
| "match_item (Star c) s pos cap k = greedy c 0 s pos (\<lambda>p. k p cap)"
| "match_item (Opt rs) s pos cap k =
     (case match_seq rs s pos cap k of Some r \<Rightarrow> Some r | None \<Rightarrow> k pos cap)"
| "match_item (Alt ls) s pos cap k =
     first_some (\<lambda>l. if lit_at l s pos then k (pos + length l) cap else None) ls"
| "match_item (Group rs) s pos cap k = match_seq rs s pos cap (\<lambda>p c. k p (Some (pos, p)))"
| "match_seq [] s pos cap k = k pos cap"
| "match_seq (r # rs) s pos cap k = match_item r s pos cap (\<lambda>p c. match_seq rs s p c k)"

text \<open>A match of the whole pattern that starts at \<open>pos\<close>: its end and the text of group 1.\<close>

definition match_at :: "rx list \<Rightarrow> string \<Rightarrow> nat \<Rightarrow> (nat \<times> string) option" where
  "match_at p s pos =
     match_seq p s pos None
       (\<lambda>e cap. Some (e, case cap of None \<Rightarrow> [] | Some (st, en) \<Rightarrow> take (en - st) (drop st s)))"

text \<open>
  \<open>re.findall(pattern, s)\<close> for a pattern with one group: the group's text for every
  match, scanning from the left and resuming where the last match ended. None of the
  seven patterns matches the empty string, so the rule of \<open>re\<close> for empty matches is not
  modelled (after one, the scan here moves on by one character).
\<close>

fun findall_from :: "rx list \<Rightarrow> string \<Rightarrow> nat list \<Rightarrow> nat \<Rightarrow> string list" where
  "findall_from p s [] resume = []"
| "findall_from p s (i # is) resume =
     (if i < resume then findall_from p s is resume
      else (case match_at p s i of
              None \<Rightarrow> findall_from p s is resume
            | Some (e, g) \<Rightarrow> g # findall_from p s is (if e = i then i + 1 else e)))"

definition re_findall :: "rx list \<Rightarrow> string \<Rightarrow> string list" where
  "re_findall p s = findall_from p s [0..<Suc (length s)] 0"

text \<open>The list \<open>audit_id_patterns\<close>, in the order of the source.\<close>

definition verb_pattern :: "string \<Rightarrow> rx list" where
  "verb_pattern verb =
     [Boundary, Lit verb, Plus Space, Opt [Lit ''audit'', Plus Space], Group [Plus Digit], Boundary]"

definition audit_n_pattern :: "rx list" where
  "audit_n_pattern =
     [Boundary, Lit ''audit'', Plus Space, Opt [Lit ''id'', Plus Space], Group [Plus Digit], Boundary]"

definition audit_id_patterns :: "rx list list" where
  "audit_id_patterns =
     [ audit_n_pattern,
       [Boundary, Lit ''id'', Plus Space, Group [Plus Digit], Boundary],
       verb_pattern ''execute'',
       verb_pattern ''run'',
       verb_pattern ''start'',
       verb_pattern ''launch'',
       [Boundary, Group [Plus Digit], Opt [Alt [''st'', ''nd'', ''rd'', ''th'']], Star Space,
        Lit ''audit'', Boundary] ]"

section \<open>\<open>database.py\<close>: loading the tables and the module-level cache\<close>

datatype py_error = KeyError | ZeroDivisionError | AttributeError

text \<open>\<open>d[k]\<close> on a dictionary kept as an association list.\<close>

definition dict_get :: "('k \<times> 'v) list \<Rightarrow> 'k \<Rightarrow> py_error + 'v" where
  "dict_get d k = (case map_of d k of None \<Rightarrow> Inl KeyError | Some v \<Rightarrow> Inr v)"

text \<open>\<open>str(n)\<close> for an integer.\<close>

function str_nat :: "nat \<Rightarrow> string" where
  "str_nat n =
     (if n < 10 then [char_of (48 + n)] else str_nat (n div 10) @ [char_of (48 + n mod 10)])"
  by pat_completeness auto

termination
  by (relation "measure (\<lambda>n. n)") auto

declare str_nat.simps [simp del]

definition py_str_int :: "int \<Rightarrow> string" where
  "py_str_int i = (if i < 0 then CHR ''-'' # str_nat (nat (- i)) else str_nat (nat i))"

text \<open>\<open>s.split(',')\<close>.\<close>

fun split_on :: "char \<Rightarrow> string \<Rightarrow> string \<Rightarrow> string list" where
  "split_on sep cur [] = [rev cur]"
| "split_on sep cur (c # cs) =
     (if c = sep then rev cur # split_on sep [] cs else split_on sep (c # cur) cs)"

text \<open>
  An audit as the loader builds it. The name and the category are what the row holds:
  a string, or \<open>None\<close> for a \<open>NULL\<close> column.
\<close>

record audit =
  audit_id :: string
  audit_name :: "string option"
  audit_category :: "string option"
  audit_tags :: string
  description :: string
  device_categories :: "string list"

record device =
  device_id :: string
  device_name :: string
  device_category :: string

record report =
  report_id :: string
  report_audit_id :: string
  report_device_id :: string
  report_audit_name :: string
  report_device_name :: string
  execution_time :: "string option"
  status :: string
  results :: string

text \<open>
  The rows the three \<open>SELECT\<close> statements return, column by column, already in the
  order of their \<open>ORDER BY\<close>. The name and the category of an audit may be \<open>NULL\<close>.
  A table is \<open>None\<close> when the connection cannot be opened or the query raises: the
  loader then logs and returns the empty list.
\<close>

type_synonym audit_row =
  "int \<times> string option \<times> string option \<times> string \<times> string \<times> string option"

type_synonym device_row = "int \<times> string \<times> string"

type_synonym report_row =
  "int \<times> int \<times> int \<times> string \<times> string \<times> string option \<times> string \<times> string"

record store =
  audits_table :: "audit_row list option"
  devices_table :: "device_row list option"
  reports_table :: "report_row list option"

fun audit_of_row :: "audit_row \<Rightarrow> audit" where
  "audit_of_row (r0, r1, r2, r3, r4, r5) =
     \<lparr>audit_id = py_str_int r0, audit_name = r1, audit_category = r2, audit_tags = r3,
      description = r4,
      device_categories =
        (case r5 of None \<Rightarrow> [] | Some s \<Rightarrow> if s = [] then [] else split_on CHR '','' [] s)\<rparr>"

fun device_of_row :: "device_row \<Rightarrow> device" where
  "device_of_row (r0, r1, r2) =
     \<lparr>device_id = py_str_int r0, device_name = r1, device_category = r2\<rparr>"

fun report_of_row :: "report_row \<Rightarrow> report" where
  "report_of_row (r0, r1, r2, r3, r4, r5, r6, r7) =
     \<lparr>report_id = py_str_int r0, report_audit_id = py_str_int r1,
      report_device_id = py_str_int r2, report_audit_name = r3, report_device_name = r4,
      execution_time = r5, status = r6, results = r7\<rparr>"

definition load_audits_data_from_db :: "store \<Rightarrow> audit list" where
  "load_audits_data_from_db db =
     (case audits_table db of None \<Rightarrow> [] | Some rows \<Rightarrow> map audit_of_row rows)"

definition load_devices_data_from_db :: "store \<Rightarrow> device list" where
  "load_devices_data_from_db db =
     (case devices_table db of None \<Rightarrow> [] | Some rows \<Rightarrow> map device_of_row rows)"

definition load_reports_data_from_db :: "store \<Rightarrow> report list" where
  "load_reports_data_from_db db =
     (case reports_table db of None \<Rightarrow> [] | Some rows \<Rightarrow> map report_of_row rows)"

definition generate_audit_device_compatibility ::
  "audit list \<Rightarrow> (string option \<times> string list) list" where
  "generate_audit_device_compatibility audits =
     foldl (\<lambda>compatibility a. AList.update (audit_name a) (device_categories a) compatibility)
       [] audits"

text \<open>
  The dictionary \<open>_cached_data\<close>. The hard-coded \<open>audit_aliases\<close> table and the wall-clock
  strings are not read by any function modelled here: the table is left out and the
  clock is a number handed in by the caller.
\<close>

record metadata =
  total_audits :: nat
  total_devices :: nat
  total_reports :: nat
  last_updated :: nat

record cached_data =
  c_audit_names :: "string option list"
  c_audit_ids :: "string list"
  c_audit_categories :: "string option list"
  c_device_names :: "string list"
  c_device_categories :: "string list"
  c_audit_device_compatibility :: "(string option \<times> string list) list"
  c_audits :: "audit list"
  c_devices :: "device list"
  c_reports :: "report list"
  c_metadata :: metadata

text \<open>The module globals \<open>_cached_data\<close> and \<open>_cache_timestamp\<close>.\<close>

record db_module =
  cached :: "cached_data option"
  cache_timestamp :: "nat option"

text \<open>
  A Python \<open>set\<close> of strings is kept as a duplicate-free list. The order in which a set
  is iterated is not fixed by the program (it follows the string hashes of the process),
  so every function that iterates a set or turns it into a list takes that order as the
  parameter \<open>set_order\<close>, a function meant to permute its argument. In the list of the
  audit categories, which no function modelled here reads, a \<open>None\<close> is put first.
\<close>

definition order_nullable ::
  "(string list \<Rightarrow> string list) \<Rightarrow> string option list \<Rightarrow> string option list" where
  "order_nullable set_order xs =
     (if None \<in> set xs then [None] else [])
     @ map Some (set_order (concat (map (\<lambda>x. case x of None \<Rightarrow> [] | Some s \<Rightarrow> [s]) xs)))"

definition refresh_all_data ::
  "(string list \<Rightarrow> string list) \<Rightarrow> nat \<Rightarrow> store \<Rightarrow> db_module \<Rightarrow> cached_data \<times> db_module" where
  "refresh_all_data set_order now db m =
     (let audits_data = load_audits_data_from_db db;
          devices_data = load_devices_data_from_db db;
          reports_data = load_reports_data_from_db db;
          new_data =
            \<lparr>c_audit_names = map audit_name audits_data,
             c_audit_ids = map audit_id audits_data,
             c_audit_categories = order_nullable set_order (remdups (map audit_category audits_data)),
             c_device_names = map device_name devices_data,
             c_device_categories = set_order (remdups (map device_category devices_data)),
             c_audit_device_compatibility = generate_audit_device_compatibility audits_data,
             c_audits = audits_data,
             c_devices = devices_data,
             c_reports = reports_data,
             c_metadata =
               \<lparr>total_audits = length audits_data, total_devices = length devices_data,
                total_reports = length reports_data, last_updated = now\<rparr>\<rparr>
      in (new_data, m\<lparr>cached := Some new_data, cache_timestamp := Some now\<rparr>))"

definition get_cached_data :: "db_module \<Rightarrow> cached_data option" where
  "get_cached_data m = cached m"

section \<open>\<open>database.insert_engineer_task\<close>\<close>

text \<open>
  The table \<open>engineer_tasks\<close> and the ways the insertion can fail: no connection, an
  error of the \<open>INSERT\<close> (caught and rolled back), and an error of the clean-up
  (\<open>rollback\<close> in a handler, \<open>close\<close> in the \<open>finally\<close> block), the only exception that
  leaves the function.
\<close>

record task_row =
  row_task_id :: int
  row_user_id :: string
  row_request_description :: string
  row_task_type :: string
  row_status :: string

record task_db =
  connectable :: bool
  insert_ok :: bool
  close_ok :: bool
  next_task_id :: int
  engineer_tasks :: "task_row list"

datatype 'a outcome = Returned 'a | Raised

definition insert_engineer_task ::
  "string \<Rightarrow> string \<Rightarrow> string \<Rightarrow> task_db \<Rightarrow> int option outcome \<times> task_db" where
  "insert_engineer_task uid request_description ttype db =
     (if \<not> connectable db then (Returned None, db)
      else
        (case (if uid = [] \<or> request_description = [] then (None, db)
               else if \<not> insert_ok db then (None, db)
               else (Some (next_task_id db),
                     db\<lparr>next_task_id := next_task_id db + 1,
                        engineer_tasks := engineer_tasks db @
                          [\<lparr>row_task_id = next_task_id db, row_user_id = uid,
                            row_request_description = request_description,
                            row_task_type = ttype, row_status = ''pending''\<rparr>]\<rparr>)) of
           (result, db') \<Rightarrow> (if close_ok db then Returned result else Raised, db')))"

section \<open>\<open>ExecutionEntityExtractor\<close>\<close>

definition similarity :: "string \<Rightarrow> string \<Rightarrow> rat" where
  "similarity a b = ratio (py_lower a) (py_lower b)"

definition preprocess_text :: "string \<Rightarrow> string" where
  "preprocess_text text =
     py_lower (join_space (py_split
       (map (\<lambda>c. if py_isword c \<or> py_isspace c then c else CHR '' '') text)))"

record extractor =
  data :: "cached_data option"
  audits_data :: "audit list"
  audit_categories :: "string list"
  audit_name_to_id :: "(string \<times> string) list"
  audit_id_to_name :: "(string \<times> string) list"
  category_to_audits :: "(string \<times> audit list) list"

definition fuzzy_threshold :: rat where
  "fuzzy_threshold = 70 / 100"

definition confidence_scores :: "string \<Rightarrow> rat" where
  "confidence_scores key =
     (if key = ''exact'' then 1 else if key = ''fuzzy'' then 85 / 100
      else if key = ''alias'' then 80 / 100 else 75 / 100)"

text \<open>\<open>s.add(x)\<close> on a set.\<close>

definition set_add :: "'a \<Rightarrow> 'a list \<Rightarrow> 'a list" where
  "set_add x xs = (if x \<in> set xs then xs else xs @ [x])"

text \<open>
  One iteration of the loop of \<open>_build_lookup_maps\<close>. \<open>audit_name.lower()\<close> raises when
  the name is \<open>None\<close>, before anything is written; \<open>audit_category.lower()\<close> raises
  when the category is \<open>None\<close>, after the two name maps were written. The extractor that
  comes with the error is the object as the exception leaves it.
\<close>

definition build_step :: "extractor \<Rightarrow> audit \<Rightarrow> (py_error + unit) \<times> extractor" where
  "build_step e a =
     (let aid = audit_id a
      in case audit_name a of
           None \<Rightarrow> (Inl AttributeError, e)
         | Some name \<Rightarrow>
             (let e1 = e\<lparr>audit_name_to_id := AList.update (py_lower name) aid (audit_name_to_id e),
                          audit_id_to_name := AList.update aid name (audit_id_to_name e)\<rparr>
              in case audit_category a of
                   None \<Rightarrow> (Inl AttributeError, e1)
                 | Some category \<Rightarrow>
                     (let key = py_lower category;
                          c2a = (if map_of (category_to_audits e1) key = None
                                 then AList.update key [] (category_to_audits e1)
                                 else category_to_audits e1)
                      in (Inr (),
                          e1\<lparr>audit_categories := set_add key (audit_categories e1),
                             category_to_audits :=
                               AList.update key
                                 ((case map_of c2a key of None \<Rightarrow> [] | Some l \<Rightarrow> l) @ [a])
                                 c2a\<rparr>))))"

fun build_loop :: "extractor \<Rightarrow> audit list \<Rightarrow> (py_error + unit) \<times> extractor" where
  "build_loop e [] = (Inr (), e)"
| "build_loop e (a # rest) =
     (case build_step e a of
        (Inr u, e') \<Rightarrow> build_loop e' rest
      | (Inl err, e') \<Rightarrow> (Inl err, e'))"

definition build_lookup_maps :: "extractor \<Rightarrow> (py_error + unit) \<times> extractor" where
  "build_lookup_maps e =
     (if audits_data e = [] then (Inr (), e)
      else build_loop
             (e\<lparr>audit_name_to_id := [], audit_id_to_name := [], audit_categories := [],
                category_to_audits := []\<rparr>)
             (audits_data e))"

text \<open>
  \<open>refresh_data_if_needed\<close>. \<open>refresh_all_data\<close> does not raise (its loaders catch
  everything), so the \<open>except\<close> branch is reached from \<open>_build_lookup_maps\<close> only: the
  method then returns \<open>False\<close> on the object as the exception left it, with the new
  \<open>data\<close> and \<open>audits_data\<close> and the maps built up to the offending row.
\<close>

definition refresh_data_if_needed ::
  "(string list \<Rightarrow> string list) \<Rightarrow> nat \<Rightarrow> store \<Rightarrow> db_module \<times> extractor \<Rightarrow>
   bool \<times> db_module \<times> extractor" where
  "refresh_data_if_needed set_order now db st =
     (case st of (m, e) \<Rightarrow>
        (case refresh_all_data set_order now db m of (fresh_data, m') \<Rightarrow>
           if c_audits fresh_data \<noteq> []
           then (case build_lookup_maps
                        (e\<lparr>data := Some fresh_data, audits_data := c_audits fresh_data\<rparr>) of
                   (Inr u, e') \<Rightarrow> (True, m', e')
                 | (Inl err, e') \<Rightarrow> (False, m', e'))
           else (False, m', e)))"

text \<open>
  \<open>_try_cached_fallback\<close>: its \<open>except\<close> branch empties the audit list and leaves the
  rest as the exception left it.
\<close>

definition try_cached_fallback :: "db_module \<times> extractor \<Rightarrow> extractor" where
  "try_cached_fallback st =
     (case st of (m, e) \<Rightarrow>
        (case get_cached_data m of
           None \<Rightarrow> e\<lparr>data := None, audits_data := []\<rparr>
         | Some d \<Rightarrow>
             if c_audits d \<noteq> []
             then (case build_lookup_maps (e\<lparr>data := Some d, audits_data := c_audits d\<rparr>) of
                     (Inr u, e') \<Rightarrow> e'
                   | (Inl err, e') \<Rightarrow> e'\<lparr>audits_data := []\<rparr>)
             else e\<lparr>data := Some d, audits_data := []\<rparr>))"

text \<open>
  \<open>load_fresh_audit_data\<close>: its \<open>except\<close> branch calls the cached fallback on the object
  as the exception left it.
\<close>

definition load_fresh_audit_data ::
  "(string list \<Rightarrow> string list) \<Rightarrow> nat \<Rightarrow> store \<Rightarrow> db_module \<times> extractor \<Rightarrow>
   db_module \<times> extractor" where
  "load_fresh_audit_data set_order now db st =
     (case st of (m, e) \<Rightarrow>
        (case refresh_all_data set_order now db m of (fresh_data, m') \<Rightarrow>
           if c_audits fresh_data \<noteq> []
           then (case build_lookup_maps
                        (e\<lparr>data := Some fresh_data, audits_data := c_audits fresh_data\<rparr>) of
                   (Inr u, e') \<Rightarrow> (m', e')
                 | (Inl err, e') \<Rightarrow> (m', try_cached_fallback (m', e')))
           else (m', try_cached_fallback (m', e\<lparr>data := Some fresh_data\<rparr>))))"

text \<open>\<open>__init__\<close>: the empty containers, then \<open>load_fresh_audit_data\<close>.\<close>

definition new_extractor ::
  "(string list \<Rightarrow> string list) \<Rightarrow> nat \<Rightarrow> store \<Rightarrow> db_module \<Rightarrow> db_module \<times> extractor" where
  "new_extractor set_order now db m =
     load_fresh_audit_data set_order now db
       (m, \<lparr>data = None, audits_data = [], audit_categories = [], audit_name_to_id = [],
            audit_id_to_name = [], category_to_audits = []\<rparr>)"

definition get_audits_by_category :: "extractor \<Rightarrow> string \<Rightarrow> audit list" where
  "get_audits_by_category e category =
     (case map_of (category_to_audits e) (py_lower category) of None \<Rightarrow> [] | Some l \<Rightarrow> l)"

subsection \<open>\<open>extract_audit_entities\<close>\<close>

record entity =
  val :: string
  confidence :: rat

text \<open>
  The dictionary the extraction returns; \<open>category_audits\<close> is \<open>None\<close> where the key is
  absent.
\<close>

record extraction =
  entities :: "(string \<times> entity) list"
  result_type :: string
  category_audits :: "audit list option"
  success :: bool

text \<open>Stage 1: the id patterns in order, and for each the matches in order.\<close>

fun id_stage :: "extractor \<Rightarrow> string \<Rightarrow> rx list list \<Rightarrow> (py_error + extraction) option" where
  "id_stage e text_clean [] = None"
| "id_stage e text_clean (pattern # patterns) =
     (case find (\<lambda>m. map_of (audit_id_to_name e) m \<noteq> None) (re_findall pattern text_clean) of
        Some m \<Rightarrow>
          Some (case dict_get (audit_id_to_name e) m of
                  Inl err \<Rightarrow> Inl err
                | Inr name \<Rightarrow>
                    Inr \<lparr>entities =
                           [(''audit_id'', \<lparr>val = m, confidence = confidence_scores ''exact''\<rparr>),
                            (''audit_name'', \<lparr>val = name, confidence = confidence_scores ''exact''\<rparr>)],
                         result_type = ''specific_audit'', category_audits = None,
                         success = True\<rparr>)
      | None \<Rightarrow> id_stage e text_clean patterns)"

text \<open>Stage 2: the first key of \<open>audit_name_to_id\<close> that occurs in the text.\<close>

definition name_stage :: "extractor \<Rightarrow> string \<Rightarrow> extraction option" where
  "name_stage e text_clean =
     (case find (\<lambda>(name, aid). py_in name text_clean) (audit_name_to_id e) of
        Some (name, aid) \<Rightarrow>
          Some \<lparr>entities =
                  [(''audit_name'', \<lparr>val = name, confidence = confidence_scores ''exact''\<rparr>),
                   (''audit_id'', \<lparr>val = aid, confidence = confidence_scores ''exact''\<rparr>)],
                result_type = ''specific_audit'', category_audits = None, success = True\<rparr>
      | None \<Rightarrow> None)"

text \<open>Stage 3: the first category, in the set's order, that occurs in the text.\<close>

definition category_result :: "extractor \<Rightarrow> string \<Rightarrow> string \<Rightarrow> extraction" where
  "category_result e category score =
     \<lparr>entities = [(''audit_category'', \<lparr>val = category, confidence = confidence_scores score\<rparr>)],
      result_type = ''category_clarification'',
      category_audits = Some (get_audits_by_category e category), success = True\<rparr>"

definition category_stage ::
  "(string list \<Rightarrow> string list) \<Rightarrow> extractor \<Rightarrow> string \<Rightarrow> extraction option" where
  "category_stage set_order e text_clean =
     (case find (\<lambda>category. py_in category text_clean) (set_order (audit_categories e)) of
        Some category \<Rightarrow> Some (category_result e category ''exact'')
      | None \<Rightarrow> None)"

text \<open>
  Stage 4. \<open>word_hit\<close> is the inner loop over the text words with its \<open>break\<close>,
  \<open>count_matches\<close> the loop over the words of the audit name.
\<close>

fun word_hit :: "string \<Rightarrow> string list \<Rightarrow> bool" where
  "word_hit audit_word [] = False"
| "word_hit audit_word (text_word # text_words) =
     (if fuzzy_threshold \<le> similarity audit_word text_word then True
      else word_hit audit_word text_words)"

fun count_matches :: "string list \<Rightarrow> string list \<Rightarrow> nat \<Rightarrow> nat" where
  "count_matches [] text_words matches = matches"
| "count_matches (audit_word # audit_words) text_words matches =
     count_matches audit_words text_words
       (if word_hit audit_word text_words then matches + 1 else matches)"

definition match_percentage :: "string \<Rightarrow> string \<Rightarrow> rat" where
  "match_percentage name text_clean =
     (let audit_words = py_split name; text_words = py_split text_clean;
          matches = count_matches audit_words text_words 0
      in if audit_words \<noteq> [] then of_nat matches / of_nat (length audit_words) else 0)"

fun fuzzy_name_loop :: "string list \<Rightarrow> string \<Rightarrow> string option \<times> rat \<Rightarrow> string option \<times> rat" where
  "fuzzy_name_loop [] text_clean best = best"
| "fuzzy_name_loop (name # names) text_clean (best_name_match, best_name_score) =
     (let mp = match_percentage name text_clean
      in if best_name_score < mp \<and> 1 / 2 \<le> mp
         then fuzzy_name_loop names text_clean (Some name, mp)
         else fuzzy_name_loop names text_clean (best_name_match, best_name_score))"

text \<open>\<open>if best_name_match:\<close> is false for \<open>None\<close> and for the empty string.\<close>

definition fuzzy_name_stage :: "extractor \<Rightarrow> string \<Rightarrow> (py_error + extraction) option" where
  "fuzzy_name_stage e text_clean =
     (case fuzzy_name_loop (map fst (audit_name_to_id e)) text_clean (None, 0) of
        (Some best_name_match, best_name_score) \<Rightarrow>
          if best_name_match = [] then None
          else
            Some (case dict_get (audit_name_to_id e) best_name_match of
                    Inl err \<Rightarrow> Inl err
                  | Inr aid \<Rightarrow>
                      (let conf = confidence_scores ''fuzzy'' * best_name_score
                       in Inr \<lparr>entities =
                                 [(''audit_name'', \<lparr>val = best_name_match, confidence = conf\<rparr>),
                                  (''audit_id'', \<lparr>val = aid, confidence = conf\<rparr>)],
                               result_type = ''specific_audit'', category_audits = None,
                               success = True\<rparr>))
      | (None, best_name_score) \<Rightarrow> None)"

text \<open>Stage 5: the first category, in the set's order, that some text word resembles.\<close>

definition fuzzy_category_stage ::
  "(string list \<Rightarrow> string list) \<Rightarrow> extractor \<Rightarrow> string \<Rightarrow> extraction option" where
  "fuzzy_category_stage set_order e text_clean =
     (case find (\<lambda>category.
                   find (\<lambda>word. fuzzy_threshold \<le> similarity word category) (py_split text_clean)
                   \<noteq> None)
             (set_order (audit_categories e)) of
        Some category \<Rightarrow> Some (category_result e category ''fuzzy'')
      | None \<Rightarrow> None)"

definition no_data_result :: extraction where
  "no_data_result =
     \<lparr>entities = [], result_type = ''no_data'', category_audits = None, success = False\<rparr>"

definition no_match_result :: extraction where
  "no_match_result =
     \<lparr>entities = [], result_type = ''no_match'', category_audits = None, success = False\<rparr>"

text \<open>The cascade, on the extractor as the refresh left it.\<close>

definition cascade ::
  "(string list \<Rightarrow> string list) \<Rightarrow> extractor \<Rightarrow> string \<Rightarrow> py_error + extraction" where
  "cascade set_order e text_clean =
     (if audits_data e = [] then Inr no_data_result
      else
        (case id_stage e text_clean audit_id_patterns of
           Some r \<Rightarrow> r
         | None \<Rightarrow>
             (case name_stage e text_clean of
                Some r \<Rightarrow> Inr r
              | None \<Rightarrow>
                  (case category_stage set_order e text_clean of
                     Some r \<Rightarrow> Inr r
                   | None \<Rightarrow>
                       (case fuzzy_name_stage e text_clean of
                          Some r \<Rightarrow> r
                        | None \<Rightarrow>
                            (case fuzzy_category_stage set_order e text_clean of
                               Some r \<Rightarrow> Inr r
                             | None \<Rightarrow> Inr no_match_result))))))"

text \<open>
  \<open>extract_audit_entities\<close>: the refresh, then the cascade. It returns the result and
  the new state of the module cache and of the extractor. The progress lines it prints
  are not modelled.
\<close>

definition extract_audit_entities ::
  "(string list \<Rightarrow> string list) \<Rightarrow> nat \<Rightarrow> store \<Rightarrow> db_module \<times> extractor \<Rightarrow> string \<Rightarrow>
   (py_error + extraction) \<times> db_module \<times> extractor" where
  "extract_audit_entities set_order now db st text =
     (case refresh_data_if_needed set_order now db st of
        (refreshed, m', e') \<Rightarrow> (cascade set_order e' (preprocess_text text), m', e'))"

section \<open>\<open>IntentClassifier\<close> and \<open>predict_intent\<close>\<close>

text \<open>
  What the orchestrator and its collaborators do to the outside is recorded as a list of
  events, in order. \<open>LoadPretrained\<close> is the download or cache read of the base model in
  \<open>IntentClassifier.__init__\<close>, \<open>LoadModelWeights\<close> the read of the persisted weights and
  of the label encoder in \<open>load_model\<close>.
\<close>

datatype ctx_msg =
    UserMessage string string
  | AssistantMessage string string
  | SystemMessage string
  | NoContent

record user_task =
  ctx :: "ctx_msg list"
  intent :: "string option"
  action :: "string option"
  original_message :: "string option"
  client_session_id :: string

record agent_response =
  response_ctx :: "ctx_msg list"
  reply_to_topic_type :: string

record engineer_task =
  task_id :: int
  user_id :: string
  audit_description :: string
  task_type :: string

datatype message =
    UserTaskMsg user_task
  | AgentResponseMsg agent_response
  | EngineerTaskMsg engineer_task

datatype topic_id = TopicId string string

datatype event =
    LoadPretrained
  | LoadModelWeights
  | Inference string
  | LLMCreate "ctx_msg list"
  | Publish message topic_id

record intent_classifier =
  is_loaded :: bool

definition new_classifier :: "intent_classifier \<times> event list" where
  "new_classifier = (\<lparr>is_loaded = False\<rparr>, [LoadPretrained])"

definition load_model :: "intent_classifier \<Rightarrow> intent_classifier \<times> event list" where
  "load_model c = (c\<lparr>is_loaded := True\<rparr>, [LoadModelWeights])"

text \<open>
  \<open>IntentClassifier.predict\<close>. The trained network is the parameter \<open>infer\<close>: the label
  and the confidence, rounded to four places, it gives a text.
\<close>

definition predict ::
  "(string \<Rightarrow> string \<times> rat) \<Rightarrow> intent_classifier \<Rightarrow> string \<Rightarrow>
   (string \<times> rat) \<times> intent_classifier \<times> event list" where
  "predict infer c txt =
     (case (if \<not> is_loaded c then load_model c else (c, [])) of
        (c', loaded) \<Rightarrow> (infer txt, c', loaded @ [Inference txt]))"

definition predict_intent :: "(string \<Rightarrow> string \<times> rat) \<Rightarrow> string \<Rightarrow> (string \<times> rat) \<times> event list" where
  "predict_intent infer txt =
     (case new_classifier of
        (classifier, made) \<Rightarrow>
          (case predict infer classifier (py_lower txt) of
             (result, c', evs) \<Rightarrow> (result, made @ evs)))"

section \<open>\<open>OrchestratorAgent\<close>\<close>

definition AUDIT_RETRIEVAL_AGENT_TOPIC :: string where
  "AUDIT_RETRIEVAL_AGENT_TOPIC = ''AuditRetrievalAgent''"

definition EXECUTE_AUDIT_AGENT_TOPIC :: string where
  "EXECUTE_AUDIT_AGENT_TOPIC = ''ExecuteAuditAgent''"

definition ENGINEER_AGENT_TOPIC :: string where
  "ENGINEER_AGENT_TOPIC = ''EngineerAgent''"


text \<open>
  The agent object, and the collaborators of one call: the trained classifier, the
  chat-completion client (\<open>None\<close> when it raises), the task table, the session id that
  \<open>generate_user_session_id\<close> draws, whether publishing to the engineer raises, and the
  module global \<open>CONFIDENCE_THRESHOLD\<close> (0.80 unless \<open>set_confidence_threshold\<close> changed it).
\<close>

record agent =
  agent_topic_type :: string
  user_topic_type :: string
  id_type :: string
  id_key :: string
  general_system_message :: ctx_msg
  classification_system_message :: ctx_msg

record world =
  infer :: "string \<Rightarrow> string \<times> rat"
  llm :: "ctx_msg list \<Rightarrow> string option"
  tasks :: task_db
  session_id :: string
  engineer_publish_raises :: bool
  CONFIDENCE_THRESHOLD :: rat

definition default_threshold :: rat where
  "default_threshold = 8000 / 10000"

definition set_confidence_threshold :: "rat \<Rightarrow> world \<Rightarrow> world" where
  "set_confidence_threshold threshold w =
     (if 0 \<le> threshold \<and> threshold \<le> 1 then w\<lparr>CONFIDENCE_THRESHOLD := threshold\<rparr> else w)"


definition success_message :: string where
  "success_message =
     [CHR 0xF0, CHR 0x9F, CHR 0x93, CHR 0xA4]
     @ '' Your audit creation request has been forwarded to our engineering team.''
     @ [CHR 0x0A, CHR 0xE2, CHR 0x8F, CHR 0xB3]
     @ '' Please wait for the engineer to process your request...''"

definition error_message :: string where
  "error_message =
     [CHR 0xE2, CHR 0x9D, CHR 0x8C]
     @ '' Sorry, there was an error processing your request. Please try again.''"

definition apology_message :: string where
  "apology_message =
     ''I apologize, but I'' @ [CHR 0x27]
     @ ''m having trouble processing your request right now. Please try again.''"

fun msg_content :: "ctx_msg \<Rightarrow> string option" where
  "msg_content (UserMessage c src) = Some c"
| "msg_content (AssistantMessage c src) = Some c"
| "msg_content (SystemMessage c) = Some c"
| "msg_content NoContent = None"

definition extract_user_message :: "user_task \<Rightarrow> string" where
  "extract_user_message message =
     (if ctx message \<noteq> []
      then (case msg_content (last (ctx message)) of Some c \<Rightarrow> c | None \<Rightarrow> [])
      else [])"

definition send_response_to_user :: "agent \<Rightarrow> user_task \<Rightarrow> string \<Rightarrow> event list" where
  "send_response_to_user ag original response_content =
     [Publish
        (AgentResponseMsg
           \<lparr>response_ctx = ctx original @ [AssistantMessage response_content (id_type ag)],
            reply_to_topic_type = agent_topic_type ag\<rparr>)
        (TopicId (user_topic_type ag) (id_key ag))]"

definition handle_with_llm ::
  "world \<Rightarrow> agent \<Rightarrow> string \<Rightarrow> ctx_msg list \<Rightarrow> string \<Rightarrow> string \<times> event list" where
  "handle_with_llm w ag user_message message_context scenario =
     (let system_msg =
            (if scenario = ''general'' then general_system_message ag
             else if scenario = ''low_confidence'' then classification_system_message ag
             else general_system_message ag);
          llm_messages = [system_msg] @ message_context
      in (case llm w llm_messages of Some content \<Rightarrow> content | None \<Rightarrow> apology_message,
          [LLMCreate llm_messages]))"


text \<open>The delegation at the end of \<open>route_to_agent\<close>.\<close>

definition delegate :: "agent \<Rightarrow> user_task \<Rightarrow> string \<Rightarrow> string \<Rightarrow> string \<Rightarrow> event list" where
  "delegate ag message target_topic intent_label action_label =
     [Publish
        (UserTaskMsg
           \<lparr>ctx = ctx message, intent = Some intent_label, action = Some action_label,
            original_message = Some (extract_user_message message), client_session_id = []\<rparr>)
        (TopicId target_topic (id_key ag))]"

text \<open>
  \<open>route_to_agent\<close>: the events, and the task table as the call leaves it. Publishing to
  the user is taken not to raise.
\<close>

definition route_to_agent :: "world \<Rightarrow> agent \<Rightarrow> string \<Rightarrow> user_task \<Rightarrow> event list \<times> task_db" where
  "route_to_agent w ag intent_label message =
     (let user_message = extract_user_message message
      in if intent_label \<in> set [''LIST_AUDITS'', ''AUDIT_RETRIEVAL_BY_CATEGORY'',
                                  ''GET_AUDIT_HISTORY'', ''GET_AUDIT_HISTORY_FILTERED'']
         then (delegate ag message AUDIT_RETRIEVAL_AGENT_TOPIC intent_label
                 (if intent_label = ''LIST_AUDITS'' then ''list_audits''
                  else if intent_label = ''AUDIT_RETRIEVAL_BY_CATEGORY'' then ''get_audits_by_category''
                  else if intent_label = ''GET_AUDIT_HISTORY'' then ''get_audit_history''
                  else ''get_audit_history_filtered''),
               tasks w)
         else if intent_label = ''EXECUTE_AUDIT''
         then (delegate ag message EXECUTE_AUDIT_AGENT_TOPIC intent_label ''execute_audit'', tasks w)
         else if intent_label = ''ENGINEER_AUDIT''
         then
           (case insert_engineer_task (session_id w) user_message ''create_new_audit'' (tasks w) of
              (Returned (Some tid), db') \<Rightarrow>
                if tid \<noteq> 0
                then (send_response_to_user ag message success_message
                      @ (if engineer_publish_raises w then []
                         else [Publish
                                 (EngineerTaskMsg
                                    \<lparr>task_id = tid, user_id = session_id w,
                                     audit_description = user_message,
                                     task_type = ''create_new_audit''\<rparr>)
                                 (TopicId ENGINEER_AGENT_TOPIC (id_key ag))]),
                      db')
                else (send_response_to_user ag message error_message, db')
            | (Returned None, db') \<Rightarrow> (send_response_to_user ag message error_message, db')
            | (Raised, db') \<Rightarrow> (send_response_to_user ag message error_message, db'))
         else ([], tasks w))"


section \<open>Notions used in the statements\<close>

subsection \<open>What each stage of the cascade finds\<close>

text \<open>
  The five conditions under which a stage succeeds, stated on the data rather than on
  the loops: an id pattern has a match that is a key of the id map; a (lower-cased)
  audit name occurs in the text; a category occurs in the text; some audit name has at
  least half of its words resembled by a text word; some text word resembles a category.
\<close>

definition id_hit :: "extractor \<Rightarrow> string \<Rightarrow> bool" where
  "id_hit e text_clean =
     list_ex (\<lambda>pattern. list_ex (\<lambda>m. map_of (audit_id_to_name e) m \<noteq> None)
                          (re_findall pattern text_clean)) audit_id_patterns"

definition name_hit :: "extractor \<Rightarrow> string \<Rightarrow> bool" where
  "name_hit e text_clean = list_ex (\<lambda>name. py_in name text_clean) (map fst (audit_name_to_id e))"

definition category_hit :: "(string list \<Rightarrow> string list) \<Rightarrow> extractor \<Rightarrow> string \<Rightarrow> bool" where
  "category_hit set_order e text_clean =
     list_ex (\<lambda>category. py_in category text_clean) (set_order (audit_categories e))"

definition fuzzy_name_hit :: "extractor \<Rightarrow> string \<Rightarrow> bool" where
  "fuzzy_name_hit e text_clean =
     list_ex (\<lambda>name. 1 / 2 \<le> match_percentage name text_clean) (map fst (audit_name_to_id e))"

definition fuzzy_category_hit :: "(string list \<Rightarrow> string list) \<Rightarrow> extractor \<Rightarrow> string \<Rightarrow> bool" where
  "fuzzy_category_hit set_order e text_clean =
     list_ex (\<lambda>category. list_ex (\<lambda>word. fuzzy_threshold \<le> similarity word category)
                            (py_split text_clean))
       (set_order (audit_categories e))"

text \<open>The results of the stages that return an audit.\<close>

definition id_result :: "string \<Rightarrow> string \<Rightarrow> extraction" where
  "id_result m name =
     \<lparr>entities =
        [(''audit_id'', \<lparr>val = m, confidence = 1\<rparr>), (''audit_name'', \<lparr>val = name, confidence = 1\<rparr>)],
      result_type = ''specific_audit'', category_audits = None, success = True\<rparr>"

definition name_result :: "string \<Rightarrow> string \<Rightarrow> extraction" where
  "name_result name aid =
     \<lparr>entities =
        [(''audit_name'', \<lparr>val = name, confidence = 1\<rparr>), (''audit_id'', \<lparr>val = aid, confidence = 1\<rparr>)],
      result_type = ''specific_audit'', category_audits = None, success = True\<rparr>"

definition fuzzy_name_result :: "string \<Rightarrow> string \<Rightarrow> rat \<Rightarrow> extraction" where
  "fuzzy_name_result name aid conf =
     \<lparr>entities = [(''audit_name'', \<lparr>val = name, confidence = conf\<rparr>),
                  (''audit_id'', \<lparr>val = aid, confidence = conf\<rparr>)],
      result_type = ''specific_audit'', category_audits = None, success = True\<rparr>"

text \<open>
  The lookup maps of an extractor are those of its audit list: \<open>_build_lookup_maps\<close>,
  called again, returns and changes nothing. This holds of a new extractor and after
  every refresh that did not raise. A row is complete when it has a name and a category.
\<close>

definition maps_built :: "extractor \<Rightarrow> bool" where
  "maps_built e = (build_lookup_maps e = (Inr (), e))"

definition complete_row :: "audit \<Rightarrow> bool" where
  "complete_row a = (audit_name a \<noteq> None \<and> audit_category a \<noteq> None)"

text \<open>The number of matched characters of a list of blocks, and its bound for a queue.\<close>

definition block_sizes :: "(nat \<times> nat \<times> nat) list \<Rightarrow> nat" where
  "block_sizes bs = sum_list (map (\<lambda>(i, j, k). k) bs)"

definition queue_cap :: "(nat \<times> nat \<times> nat \<times> nat) list \<Rightarrow> nat" where
  "queue_cap q = sum_list (map (\<lambda>(alo, ahi, blo, bhi). min (ahi - alo) (bhi - blo)) q)"

subsection \<open>Reading a trace\<close>



fun engineer_publish :: "event \<Rightarrow> bool" where
  "engineer_publish (Publish (EngineerTaskMsg t) tp) = True"
| "engineer_publish e = False"

text \<open>The events of classifying a list of messages, one call of \<open>predict_intent\<close> each.\<close>

definition classify_all :: "(string \<Rightarrow> string \<times> rat) \<Rightarrow> string list \<Rightarrow> event list" where
  "classify_all f texts = concat (map (\<lambda>txt. snd (predict_intent f txt)) texts)"

section \<open>The scenarios of the specification\<close>

text \<open>
  The store of the scenarios: one audit, number 16, ``Cisco Audit New'', of category
  ``Network''; and the state of the module cache before anything was loaded.
\<close>

definition demo_store :: store where
  "demo_store =
     \<lparr>audits_table =
        Some [(16, Some ''Cisco Audit New'', Some ''Network'', '''', '''', Some ''Router,Switch'')],
      devices_table = Some [], reports_table = Some []\<rparr>"

definition empty_module :: db_module where
  "empty_module = \<lparr>cached = None, cache_timestamp = None\<rparr>"

text \<open>
  The catalog with the single audit 16, ``Cisco Audit New'', of category ``Network'':
  the extractor built from it at time \<open>now\<close>, written out.
\<close>

definition demo_audit :: audit where
  "demo_audit =
     \<lparr>audit_id = ''16'', audit_name = Some ''Cisco Audit New'', audit_category = Some ''Network'',
      audit_tags = [], description = [], device_categories = [''Router'', ''Switch'']\<rparr>"

definition demo_cache :: "nat \<Rightarrow> cached_data" where
  "demo_cache now =
     \<lparr>c_audit_names = [Some ''Cisco Audit New''], c_audit_ids = [''16''],
      c_audit_categories = [Some ''Network''], c_device_names = [], c_device_categories = [],
      c_audit_device_compatibility = [(Some ''Cisco Audit New'', [''Router'', ''Switch''])],
      c_audits = [demo_audit], c_devices = [], c_reports = [],
      c_metadata = \<lparr>total_audits = 1, total_devices = 0, total_reports = 0, last_updated = now\<rparr>\<rparr>"

definition demo_module :: "nat \<Rightarrow> db_module" where
  "demo_module now = \<lparr>cached = Some (demo_cache now), cache_timestamp = Some now\<rparr>"

definition demo_extractor :: "nat \<Rightarrow> extractor" where
  "demo_extractor now =
     \<lparr>data = Some (demo_cache now), audits_data = [demo_audit],
      audit_categories = [''network''],
      audit_name_to_id = [(''cisco audit new'', ''16'')],
      audit_id_to_name = [(''16'', ''Cisco Audit New'')],
      category_to_audits = [(''network'', [demo_audit])]\<rparr>"

definition down_store :: store where
  "down_store = \<lparr>audits_table = None, devices_table = None, reports_table = None\<rparr>"

text \<open>
  A store whose second audit has no category, and that audit as the loader builds it.
\<close>

definition null_store :: store where
  "null_store =
     \<lparr>audits_table =
        Some [(16, Some ''Cisco Audit New'', Some ''Network'', '''', '''', Some ''Router,Switch''),
              (17, Some ''Port Audit'', None, '''', '''', None)],
      devices_table = Some [], reports_table = Some []\<rparr>"

definition port_audit :: audit where
  "port_audit =
     \<lparr>audit_id = ''17'', audit_name = Some ''Port Audit'', audit_category = None,
      audit_tags = [], description = [], device_categories = []\<rparr>"

definition empty_extractor :: extractor where
  "empty_extractor =
     \<lparr>data = None, audits_data = [], audit_categories = [], audit_name_to_id = [],
      audit_id_to_name = [], category_to_audits = []\<rparr>"

definition fuzzy_demo :: extractor where
  "fuzzy_demo =
     \<lparr>data = None, audits_data = [], audit_categories = [],
      audit_name_to_id = [(''check cisco port status'', ''3'')],
      audit_id_to_name = [(''3'', ''Check Cisco Port Status'')], category_to_audits = []\<rparr>"

text \<open>A conversation with the router.\<close>

definition demo_agent :: agent where
  "demo_agent =
     \<lparr>agent_topic_type = ''OrchestratorAgent'', user_topic_type = ''User'',
      id_type = ''OrchestratorAgent'', id_key = ''default'',
      general_system_message = SystemMessage ''general'',
      classification_system_message = SystemMessage ''classification''\<rparr>"

definition demo_tasks :: task_db where
  "demo_tasks =
     \<lparr>connectable = True, insert_ok = True, close_ok = True, next_task_id = 7,
      engineer_tasks = []\<rparr>"

definition broken_tasks :: task_db where
  "broken_tasks = demo_tasks\<lparr>insert_ok := False\<rparr>"

definition demo_world :: "string \<Rightarrow> rat \<Rightarrow> string \<Rightarrow> task_db \<Rightarrow> world" where
  "demo_world label conf answer db =
     \<lparr>infer = (\<lambda>txt. (label, conf)), llm = (\<lambda>msgs. Some answer), tasks = db,
      session_id = ''a1b2c3d4'', engineer_publish_raises = False,
      CONFIDENCE_THRESHOLD = default_threshold\<rparr>"

definition demo_message :: "string \<Rightarrow> user_task" where
  "demo_message txt =
     \<lparr>ctx = [UserMessage txt ''User''], intent = None, action = None,
      original_message = None, client_session_id = []\<rparr>"




section \<open>Lemmas\<close>

subsection \<open>The ratio lies between 0 and 1\<close>

lemma block_sizes_append [simp]: "block_sizes (xs @ ys) = block_sizes xs + block_sizes ys"
  by (simp add: block_sizes_def)

lemma collapse_sizes:
  "block_sizes (collapse blocks (i1, j1, k1) acc) = block_sizes acc + k1 + block_sizes blocks"
  by (induction blocks "(i1, j1, k1)" acc arbitrary: i1 j1 k1 rule: collapse.induct)
     (auto simp: block_sizes_def)

lemma block_sizes_insort: "block_sizes (insort x xs) = block_sizes [x] + block_sizes xs"
  by (induction xs) (auto simp: block_sizes_def)

lemma block_sizes_sort: "block_sizes (sort bs) = block_sizes bs"
  by (induction bs) (simp_all add: block_sizes_insort, simp add: block_sizes_def)

lemma gmb_loop_sizes:
  "block_sizes (gmb_loop a b queue blocks) \<le> block_sizes blocks + queue_cap queue"
proof (induction a b queue blocks rule: gmb_loop.induct)
  case (1 a b blocks)
  then show ?case by (simp add: gmb_loop.simps)
next
  case (2 a b alo ahi blo bhi queue blocks)
  obtain i j k where m: "find_longest_match a b alo ahi blo bhi = (i, j, k)"
    by (cases "find_longest_match a b alo ahi blo bhi")
  show ?case
  proof (cases "k = 0")
    case True
    with "2.IH"(2)[OF m[symmetric] refl] m show ?thesis
      by (simp add: gmb_loop.simps queue_cap_def)
  next
    case False
    from find_longest_match_bounds[OF m False]
    have b: "alo \<le> i" "i + k \<le> ahi" "blo \<le> j" "j + k \<le> bhi" by simp_all
    let ?q = "(if i + k < ahi \<and> j + k < bhi then [(i + k, ahi, j + k, bhi)] else [])
              @ (if alo < i \<and> blo < j then [(alo, i, blo, j)] else []) @ queue"
    have cap: "k + queue_cap ?q \<le> queue_cap ((alo, ahi, blo, bhi) # queue)"
      using b False by (auto simp: queue_cap_def)
    from "2.IH"(1)[OF m[symmetric] refl False] m False
    have "block_sizes (gmb_loop a b ?q (blocks @ [(i, j, k)]))
          \<le> block_sizes (blocks @ [(i, j, k)]) + queue_cap ?q" by simp
    moreover have "gmb_loop a b ((alo, ahi, blo, bhi) # queue) blocks
                   = gmb_loop a b ?q (blocks @ [(i, j, k)])"
      using m False by (simp add: gmb_loop.simps)
    ultimately show ?thesis using cap by (simp add: block_sizes_def)
  qed
qed

lemma matches_le:
  "block_sizes (get_matching_blocks a b) \<le> min (length a) (length b)"
proof -
  have "block_sizes (get_matching_blocks a b)
        = block_sizes (gmb_loop a b [(0, length a, 0, length b)] [])"
    by (simp add: get_matching_blocks_def collapse_sizes block_sizes_sort)
       (simp add: block_sizes_def)
  also have "\<dots> \<le> block_sizes [] + queue_cap [(0, length a, 0, length b)]"
    by (rule gmb_loop_sizes)
  finally show ?thesis by (simp add: block_sizes_def queue_cap_def)
qed

lemma ratio_range: "0 \<le> ratio a b \<and> ratio a b \<le> 1"
proof -
  let ?m = "block_sizes (get_matching_blocks a b)"
  have r: "ratio a b = calculate_ratio ?m (length a + length b)"
    by (simp add: ratio_def block_sizes_def)
  have "2 * ?m \<le> length a + length b" using matches_le[of a b] by simp
  then have "(2 * of_nat ?m :: rat) \<le> of_nat (length a + length b)"
    by (metis of_nat_le_iff of_nat_mult of_nat_numeral)
  then show ?thesis unfolding r calculate_ratio_def
    by (auto simp: divide_le_eq)
qed

subsection \<open>The stages\<close>

lemma find_None_iff_list_ex: "find P xs = None \<longleftrightarrow> \<not> list_ex P xs"
  by (induction xs) auto

lemma find_Some_list_ex: "find P xs = Some x \<Longrightarrow> list_ex P xs"
  by (induction xs) (auto split: if_splits)

lemma find_Some_first:
  "find P xs = Some x \<Longrightarrow> \<exists>pre post. xs = pre @ x # post \<and> P x \<and> (\<forall>y \<in> set pre. \<not> P y)"
proof (induction xs)
  case Nil
  then show ?case by simp
next
  case (Cons a xs)
  show ?case
  proof (cases "P a")
    case True
    with Cons.prems have "a = x" by simp
    with True have "a # xs = [] @ x # xs \<and> P x \<and> (\<forall>y \<in> set []. \<not> P y)" by simp
    then show ?thesis by blast
  next
    case False
    with Cons obtain pre post where "xs = pre @ x # post" "P x" "\<forall>y \<in> set pre. \<not> P y" by auto
    with False have "a # xs = (a # pre) @ x # post \<and> P x \<and> (\<forall>y \<in> set (a # pre). \<not> P y)"
      by simp
    then show ?thesis by blast
  qed
qed

lemma id_stage_None: "id_stage e tc ps = None \<longleftrightarrow>
   \<not> list_ex (\<lambda>p. list_ex (\<lambda>m. map_of (audit_id_to_name e) m \<noteq> None) (re_findall p tc)) ps"
  by (induction ps) (auto simp: find_None_iff_list_ex split: option.splits dest: find_Some_list_ex)

lemma id_stage_Some:
  "id_stage e tc ps = Some r \<Longrightarrow>
     \<exists>p m name. p \<in> set ps \<and> m \<in> set (re_findall p tc) \<and> map_of (audit_id_to_name e) m = Some name
        \<and> r = Inr (id_result m name)"
proof (induction ps)
  case Nil
  then show ?case by simp
next
  case (Cons p ps)
  show ?case
  proof (cases "find (\<lambda>m. map_of (audit_id_to_name e) m \<noteq> None) (re_findall p tc)")
    case None
    with Cons show ?thesis by auto
  next
    case (Some m)
    then have "m \<in> set (re_findall p tc)" "map_of (audit_id_to_name e) m \<noteq> None"
      by (auto dest!: find_Some_first)
    then obtain name where n: "map_of (audit_id_to_name e) m = Some name" by auto
    with Some Cons.prems have "r = Inr (id_result m name)"
      by (simp add: dict_get_def id_result_def confidence_scores_def)
    with n \<open>m \<in> set (re_findall p tc)\<close> show ?thesis by auto
  qed
qed

text \<open>Stages 2, 3 and 5.\<close>

lemma name_stage_None: "name_stage e tc = None \<longleftrightarrow> \<not> name_hit e tc"
proof -
  have "list_ex (\<lambda>(name, aid). py_in name tc) xs = list_ex (\<lambda>name. py_in name tc) (map fst xs)" for xs
    by (induction xs) auto
  then show ?thesis
    by (auto simp: name_stage_def name_hit_def find_None_iff_list_ex split: option.splits
             dest!: find_Some_list_ex)
qed

lemma name_stage_Some:
  "name_stage e tc = Some r \<Longrightarrow>
     \<exists>name aid. (name, aid) \<in> set (audit_name_to_id e) \<and> py_in name tc
        \<and> r = \<lparr>entities = [(''audit_name'', \<lparr>val = name, confidence = 1\<rparr>),
                             (''audit_id'', \<lparr>val = aid, confidence = 1\<rparr>)],
                 result_type = ''specific_audit'', category_audits = None, success = True\<rparr>"
  by (auto simp: name_stage_def confidence_scores_def split: option.splits dest!: find_Some_first)

lemma category_stage_None: "category_stage so e tc = None \<longleftrightarrow> \<not> category_hit so e tc"
  by (auto simp: category_stage_def category_hit_def find_None_iff_list_ex split: option.splits
           dest: find_Some_list_ex)

lemma category_stage_Some:
  "category_stage so e tc = Some r \<Longrightarrow>
     \<exists>c \<in> set (so (audit_categories e)). py_in c tc \<and> r = category_result e c ''exact''"
  by (auto simp: category_stage_def split: option.splits dest!: find_Some_first)

lemma fuzzy_category_stage_None:
  "fuzzy_category_stage so e tc = None \<longleftrightarrow> \<not> fuzzy_category_hit so e tc"
  by (auto simp: fuzzy_category_stage_def fuzzy_category_hit_def find_None_iff_list_ex
           split: option.splits dest: find_Some_list_ex)

lemma fuzzy_category_stage_Some:
  "fuzzy_category_stage so e tc = Some r \<Longrightarrow>
     \<exists>c \<in> set (so (audit_categories e)).
        (\<exists>w \<in> set (py_split tc). fuzzy_threshold \<le> similarity w c)
        \<and> r = category_result e c ''fuzzy''"
  by (auto simp: fuzzy_category_stage_def find_None_iff_list_ex list_ex_iff
           split: option.splits dest!: find_Some_first)

text \<open>Stage 4.\<close>

lemma word_hit_iff:
  "word_hit aw tws \<longleftrightarrow> (\<exists>tw \<in> set tws. fuzzy_threshold \<le> similarity aw tw)"
  by (induction tws) auto

lemma count_matches_eq:
  "count_matches aws tws acc = acc + length (filter (\<lambda>aw. word_hit aw tws) aws)"
  by (induction aws arbitrary: acc) auto

lemma match_percentage_eq:
  "match_percentage name tc =
     (if py_split name = [] then 0
      else of_nat (length (filter (\<lambda>aw. \<exists>tw \<in> set (py_split tc). 7 / 10 \<le> similarity aw tw)
                             (py_split name)))
           / of_nat (length (py_split name)))"
proof -
  have ft: "fuzzy_threshold = 7 / 10" by (simp add: fuzzy_threshold_def)
  show ?thesis
    unfolding match_percentage_def Let_def count_matches_eq word_hit_iff ft by simp
qed

lemma match_percentage_half_nonempty: "1 / 2 \<le> match_percentage name tc \<Longrightarrow> name \<noteq> []"
  by (auto simp: match_percentage_def Let_def py_split_def split: if_splits)

lemma fuzzy_name_loop_spec:
  assumes "fuzzy_name_loop names tc (bm, bs) = (r, s)"
  shows "if list_ex (\<lambda>n. bs < match_percentage n tc \<and> 1 / 2 \<le> match_percentage n tc) names
         then \<exists>pre n post. names = pre @ n # post \<and> r = Some n \<and> s = match_percentage n tc
                \<and> bs < match_percentage n tc \<and> 1 / 2 \<le> match_percentage n tc
                \<and> (\<forall>m \<in> set pre. match_percentage m tc < match_percentage n tc)
                \<and> (\<forall>m \<in> set post. match_percentage m tc \<le> match_percentage n tc)
         else r = bm \<and> s = bs"
  using assms
proof (induction names arbitrary: bm bs)
  case Nil
  then show ?case by simp
next
  case (Cons x xs)
  let ?mp = "\<lambda>n. match_percentage n tc"
  let ?q = "\<lambda>b n. b < ?mp n \<and> 1 / 2 \<le> ?mp n"
  show ?case
  proof (cases "?q bs x")
    case True
    with Cons.prems have run: "fuzzy_name_loop xs tc (Some x, ?mp x) = (r, s)"
      by (simp add: Let_def)
    note ih = Cons.IH[OF run]
    show ?thesis
    proof (cases "list_ex (?q (?mp x)) xs")
      case later: True
      with ih obtain pre n post where p: "xs = pre @ n # post" "r = Some n" "s = ?mp n"
        "?mp x < ?mp n" "1 / 2 \<le> ?mp n" "\<forall>m \<in> set pre. ?mp m < ?mp n"
        "\<forall>m \<in> set post. ?mp m \<le> ?mp n"
        by auto
      from p True have "x # xs = (x # pre) @ n # post \<and> r = Some n \<and> s = ?mp n
          \<and> bs < ?mp n \<and> 1 / 2 \<le> ?mp n \<and> (\<forall>m \<in> set (x # pre). ?mp m < ?mp n)
          \<and> (\<forall>m \<in> set post. ?mp m \<le> ?mp n)"
        by auto
      then have "\<exists>pre n post. x # xs = pre @ n # post \<and> r = Some n \<and> s = ?mp n
          \<and> bs < ?mp n \<and> 1 / 2 \<le> ?mp n \<and> (\<forall>m \<in> set pre. ?mp m < ?mp n)
          \<and> (\<forall>m \<in> set post. ?mp m \<le> ?mp n)"
        by blast
      moreover have "list_ex (?q bs) (x # xs)" using True by simp
      ultimately show ?thesis by simp
    next
      case none: False
      with ih have rs: "r = Some x" "s = ?mp x" by auto
      from none True have "\<forall>m \<in> set xs. ?mp m \<le> ?mp x"
        by (fastforce simp: list_ex_iff)
      with rs True have "x # xs = [] @ x # xs \<and> r = Some x \<and> s = ?mp x
          \<and> bs < ?mp x \<and> 1 / 2 \<le> ?mp x \<and> (\<forall>m \<in> set []. ?mp m < ?mp x)
          \<and> (\<forall>m \<in> set xs. ?mp m \<le> ?mp x)"
        by simp
      then have "\<exists>pre n post. x # xs = pre @ n # post \<and> r = Some n \<and> s = ?mp n
          \<and> bs < ?mp n \<and> 1 / 2 \<le> ?mp n \<and> (\<forall>m \<in> set pre. ?mp m < ?mp n)
          \<and> (\<forall>m \<in> set post. ?mp m \<le> ?mp n)"
        by blast
      moreover have "list_ex (?q bs) (x # xs)" using True by simp
      ultimately show ?thesis by simp
    qed
  next
    case False
    with Cons.prems have run: "fuzzy_name_loop xs tc (bm, bs) = (r, s)"
      by (auto simp: Let_def)
    note ih = Cons.IH[OF run]
    show ?thesis
    proof (cases "list_ex (?q bs) xs")
      case later: True
      with ih obtain pre n post where p: "xs = pre @ n # post" "r = Some n" "s = ?mp n"
        "bs < ?mp n" "1 / 2 \<le> ?mp n" "\<forall>m \<in> set pre. ?mp m < ?mp n"
        "\<forall>m \<in> set post. ?mp m \<le> ?mp n"
        by auto
      from False p(4,5) have "?mp x < ?mp n" by auto
      with p have "x # xs = (x # pre) @ n # post \<and> r = Some n \<and> s = ?mp n
          \<and> bs < ?mp n \<and> 1 / 2 \<le> ?mp n \<and> (\<forall>m \<in> set (x # pre). ?mp m < ?mp n)
          \<and> (\<forall>m \<in> set post. ?mp m \<le> ?mp n)"
        by auto
      then have "\<exists>pre n post. x # xs = pre @ n # post \<and> r = Some n \<and> s = ?mp n
          \<and> bs < ?mp n \<and> 1 / 2 \<le> ?mp n \<and> (\<forall>m \<in> set pre. ?mp m < ?mp n)
          \<and> (\<forall>m \<in> set post. ?mp m \<le> ?mp n)"
        by blast
      moreover have "list_ex (?q bs) (x # xs)" using later by simp
      ultimately show ?thesis by simp
    next
      case none: False
      with ih have "r = bm \<and> s = bs" by auto
      moreover have "\<not> list_ex (?q bs) (x # xs)" using none False by simp
      ultimately show ?thesis by (simp only: if_False)
    qed
  qed
qed

lemma fuzzy_name_stage_None: "fuzzy_name_stage e tc = None \<longleftrightarrow> \<not> fuzzy_name_hit e tc"
proof -
  let ?names = "map fst (audit_name_to_id e)"
  obtain r s where run: "fuzzy_name_loop ?names tc (None, 0) = (r, s)"
    by (cases "fuzzy_name_loop ?names tc (None, 0)")
  have q: "list_ex (\<lambda>n. 0 < match_percentage n tc \<and> 1 / 2 \<le> match_percentage n tc) ?names
           = fuzzy_name_hit e tc"
    unfolding fuzzy_name_hit_def list_ex_iff by (intro bex_cong refl) auto
  note spec = fuzzy_name_loop_spec[OF run, unfolded q]
  show ?thesis
  proof (cases "fuzzy_name_hit e tc")
    case True
    with spec obtain pre n post where p: "?names = pre @ n # post" "r = Some n"
      "1 / 2 \<le> match_percentage n tc" by auto
    from match_percentage_half_nonempty[OF p(3)] have "n \<noteq> []" .
    with run p True show ?thesis by (simp add: fuzzy_name_stage_def)
  next
    case False
    with spec have "r = None" by simp
    with run False show ?thesis by (simp add: fuzzy_name_stage_def)
  qed
qed

lemma fuzzy_name_stage_Some:
  assumes "fuzzy_name_stage e tc = Some res"
  shows "\<exists>pre n post aid. map fst (audit_name_to_id e) = pre @ n # post
           \<and> map_of (audit_name_to_id e) n = Some aid
           \<and> 1 / 2 \<le> match_percentage n tc
           \<and> (\<forall>m \<in> set pre. match_percentage m tc < match_percentage n tc)
           \<and> (\<forall>m \<in> set post. match_percentage m tc \<le> match_percentage n tc)
           \<and> res = Inr (fuzzy_name_result n aid (85 / 100 * match_percentage n tc))"
proof -
  let ?names = "map fst (audit_name_to_id e)"
  obtain r s where run: "fuzzy_name_loop ?names tc (None, 0) = (r, s)"
    by (cases "fuzzy_name_loop ?names tc (None, 0)")
  have q: "list_ex (\<lambda>n. 0 < match_percentage n tc \<and> 1 / 2 \<le> match_percentage n tc) ?names
           = fuzzy_name_hit e tc"
    unfolding fuzzy_name_hit_def list_ex_iff by (intro bex_cong refl) auto
  note spec = fuzzy_name_loop_spec[OF run, unfolded q]
  from assms have hit: "fuzzy_name_hit e tc" using fuzzy_name_stage_None[of e tc] by auto
  with spec obtain pre n post where p: "?names = pre @ n # post" "r = Some n"
    "s = match_percentage n tc" "1 / 2 \<le> match_percentage n tc"
    "\<forall>m \<in> set pre. match_percentage m tc < match_percentage n tc"
    "\<forall>m \<in> set post. match_percentage m tc \<le> match_percentage n tc"
    by auto
  from p(1) have "n \<in> fst ` set (audit_name_to_id e)"
    by (metis in_set_conv_decomp list.set_map)
  then obtain aid where aid: "map_of (audit_name_to_id e) n = Some aid"
    by (metis domD domI dom_map_of_conv_image_fst)
  have ne: "n \<noteq> []" using p(4) by (rule match_percentage_half_nonempty)
  from assms run p(2,3) ne aid
  have "res = Inr (fuzzy_name_result n aid (85 / 100 * match_percentage n tc))"
    by (simp add: fuzzy_name_stage_def dict_get_def fuzzy_name_result_def confidence_scores_def
          Let_def)
  with p aid show ?thesis by blast
qed

subsection \<open>The pattern \<open>audit <n>\<close> of the id stage\<close>




























subsection \<open>Cleaning keeps ``audit \<open>n\<close>''\<close>

lemma of_char_lt: "(of_char c :: nat) < 256"
  by (cases c) simp

lemma lower_word [simp]: "py_isword (py_lower_char c) = py_isword c"
  using of_char_lt[of c]
  by (auto simp: py_isword_def py_lower_char_def Let_def)



lemma lower_space: "py_isspace c \<Longrightarrow> py_lower_char c = c"
  by (auto simp: py_isspace_def py_lower_char_def Let_def)















subsection \<open>The cascade as a whole\<close>

lemma cascade_total: "\<exists>r. cascade so e tc = Inr r"
proof -
  have a: "\<exists>x. r = Inr x" if "id_stage e tc audit_id_patterns = Some r" for r
    using id_stage_Some[OF that] by auto
  have b: "\<exists>x. r = Inr x" if "fuzzy_name_stage e tc = Some r" for r
    using fuzzy_name_stage_Some[OF that] by auto
  show ?thesis
    unfolding cascade_def by (auto split: option.splits dest: a b)
qed

lemma cascade_no_data: "audits_data e = [] \<Longrightarrow> cascade so e tc = Inr no_data_result"
  by (simp add: cascade_def)

lemma cascade_id:
  assumes "audits_data e \<noteq> []" "id_hit e tc"
  shows "\<exists>p m name. p \<in> set audit_id_patterns \<and> m \<in> set (re_findall p tc)
           \<and> map_of (audit_id_to_name e) m = Some name \<and> cascade so e tc = Inr (id_result m name)"
proof -
  from assms(2) obtain r where r: "id_stage e tc audit_id_patterns = Some r"
    using id_stage_None[of e tc audit_id_patterns] by (auto simp: id_hit_def)
  from id_stage_Some[OF r] r assms(1) show ?thesis by (auto simp: cascade_def)
qed

lemma cascade_name:
  assumes "audits_data e \<noteq> []" "\<not> id_hit e tc" "name_hit e tc"
  shows "\<exists>name aid. (name, aid) \<in> set (audit_name_to_id e) \<and> py_in name tc
           \<and> cascade so e tc = Inr (name_result name aid)"
proof -
  from assms(2) have i: "id_stage e tc audit_id_patterns = None"
    using id_stage_None[of e tc audit_id_patterns] by (simp add: id_hit_def)
  from assms(3) obtain r where r: "name_stage e tc = Some r"
    using name_stage_None[of e tc] by auto
  from name_stage_Some[OF r] r i assms(1) show ?thesis
    by (auto simp: cascade_def name_result_def)
qed

lemma cascade_category:
  assumes "audits_data e \<noteq> []" "\<not> id_hit e tc" "\<not> name_hit e tc" "category_hit so e tc"
  shows "\<exists>c \<in> set (so (audit_categories e)). py_in c tc
           \<and> cascade so e tc = Inr (category_result e c ''exact'')"
proof -
  from assms(2) have i: "id_stage e tc audit_id_patterns = None"
    using id_stage_None[of e tc audit_id_patterns] by (simp add: id_hit_def)
  from assms(3) have n: "name_stage e tc = None" by (simp add: name_stage_None)
  from assms(4) obtain r where r: "category_stage so e tc = Some r"
    using category_stage_None[of so e tc] by auto
  from category_stage_Some[OF r] r i n assms(1) show ?thesis
    by (auto simp: cascade_def)
qed

lemma cascade_fuzzy_name:
  assumes "audits_data e \<noteq> []" "\<not> id_hit e tc" "\<not> name_hit e tc" "\<not> category_hit so e tc"
    "fuzzy_name_hit e tc"
  shows "\<exists>n aid. map_of (audit_name_to_id e) n = Some aid \<and> 1 / 2 \<le> match_percentage n tc
           \<and> cascade so e tc
               = Inr (fuzzy_name_result n aid (85 / 100 * match_percentage n tc))"
proof -
  from assms(2) have i: "id_stage e tc audit_id_patterns = None"
    using id_stage_None[of e tc audit_id_patterns] by (simp add: id_hit_def)
  from assms(3) have n: "name_stage e tc = None" by (simp add: name_stage_None)
  from assms(4) have c: "category_stage so e tc = None" by (simp add: category_stage_None)
  from assms(5) obtain r where r: "fuzzy_name_stage e tc = Some r"
    using fuzzy_name_stage_None[of e tc] by auto
  from fuzzy_name_stage_Some[OF r] r i n c assms(1) show ?thesis
    by (auto simp: cascade_def)
qed

lemma cascade_fuzzy_category:
  assumes "audits_data e \<noteq> []" "\<not> id_hit e tc" "\<not> name_hit e tc" "\<not> category_hit so e tc"
    "\<not> fuzzy_name_hit e tc" "fuzzy_category_hit so e tc"
  shows "\<exists>c \<in> set (so (audit_categories e)).
           (\<exists>w \<in> set (py_split tc). fuzzy_threshold \<le> similarity w c)
           \<and> cascade so e tc = Inr (category_result e c ''fuzzy'')"
proof -
  from assms(2) have i: "id_stage e tc audit_id_patterns = None"
    using id_stage_None[of e tc audit_id_patterns] by (simp add: id_hit_def)
  from assms(3) have n: "name_stage e tc = None" by (simp add: name_stage_None)
  from assms(4) have c: "category_stage so e tc = None" by (simp add: category_stage_None)
  from assms(5) have f: "fuzzy_name_stage e tc = None" by (simp add: fuzzy_name_stage_None)
  from assms(6) obtain r where r: "fuzzy_category_stage so e tc = Some r"
    using fuzzy_category_stage_None[of so e tc] by auto
  from fuzzy_category_stage_Some[OF r] r i n c f assms(1) show ?thesis
    by (auto simp: cascade_def)
qed

lemma cascade_no_match:
  assumes "audits_data e \<noteq> []" "\<not> id_hit e tc" "\<not> name_hit e tc" "\<not> category_hit so e tc"
    "\<not> fuzzy_name_hit e tc" "\<not> fuzzy_category_hit so e tc"
  shows "cascade so e tc = Inr no_match_result"
proof -
  from assms(2) have i: "id_stage e tc audit_id_patterns = None"
    using id_stage_None[of e tc audit_id_patterns] by (simp add: id_hit_def)
  from assms(3) have n: "name_stage e tc = None" by (simp add: name_stage_None)
  from assms(4) have c: "category_stage so e tc = None" by (simp add: category_stage_None)
  from assms(5) have f: "fuzzy_name_stage e tc = None" by (simp add: fuzzy_name_stage_None)
  from assms(6) have g: "fuzzy_category_stage so e tc = None"
    by (simp add: fuzzy_category_stage_None)
  from i n c f g assms(1) show ?thesis by (simp add: cascade_def)
qed

lemma extract_cascade:
  "extract_audit_entities so now db st text = (res, m', e') \<Longrightarrow>
     res = cascade so e' (preprocess_text text)"
  by (auto simp: extract_audit_entities_def split: prod.splits)

subsection \<open>The lookup maps are those of the audit list\<close>

lemma build_step_frame:
  "build_step e a = (r, e') \<Longrightarrow> data e' = data e \<and> audits_data e' = audits_data e"
  by (auto simp: build_step_def Let_def split: option.splits)

lemma build_loop_frame:
  "build_loop e xs = (r, e') \<Longrightarrow> data e' = data e \<and> audits_data e' = audits_data e"
proof (induction xs arbitrary: e)
  case Nil
  then show ?case by simp
next
  case (Cons a xs)
  obtain r1 e1 where s: "build_step e a = (r1, e1)" by (cases "build_step e a")
  note f = build_step_frame[OF s]
  show ?case
  proof (cases r1)
    case (Inl err)
    with Cons.prems s f show ?thesis by simp
  next
    case (Inr u)
    with Cons.prems s have "build_loop e1 xs = (r, e')" by simp
    from Cons.IH[OF this] f show ?thesis by simp
  qed
qed

lemma build_lookup_maps_frame:
  "build_lookup_maps e = (r, e') \<Longrightarrow> data e' = data e \<and> audits_data e' = audits_data e"
  using build_loop_frame[of _ "audits_data e" r e']
  by (auto simp: build_lookup_maps_def split: if_splits)

lemma build_step_complete:
  "complete_row a \<Longrightarrow> fst (build_step e a) = Inr ()"
  by (auto simp: build_step_def complete_row_def Let_def split: option.splits)

lemma build_step_incomplete:
  "\<not> complete_row a \<Longrightarrow> fst (build_step e a) = Inl AttributeError"
  by (auto simp: build_step_def complete_row_def Let_def split: option.splits)

lemma build_loop_complete:
  "list_all complete_row xs \<Longrightarrow> fst (build_loop e xs) = Inr ()"
proof (induction xs arbitrary: e)
  case Nil
  then show ?case by simp
next
  case (Cons a xs)
  obtain r1 e1 where s: "build_step e a = (r1, e1)" by (cases "build_step e a")
  from Cons.prems build_step_complete[of a e] s have "r1 = Inr ()" by simp
  with s Cons.IH[of e1] Cons.prems show ?case by simp
qed

lemma build_loop_incomplete:
  "\<not> list_all complete_row xs \<Longrightarrow> fst (build_loop e xs) = Inl AttributeError"
proof (induction xs arbitrary: e)
  case Nil
  then show ?case by simp
next
  case (Cons a xs)
  obtain r1 e1 where s: "build_step e a = (r1, e1)" by (cases "build_step e a")
  show ?case
  proof (cases "complete_row a")
    case True
    with build_step_complete[of a e] s have "r1 = Inr ()" by simp
    with s Cons.IH[of e1] Cons.prems True show ?thesis by simp
  next
    case False
    with build_step_incomplete[of a e] s have "r1 = Inl AttributeError" by simp
    with s show ?thesis by simp
  qed
qed

text \<open>Building again gives the same maps: the method clears them first.\<close>

lemma maps_built_after:
  assumes "build_lookup_maps e = (Inr (), e')"
  shows "maps_built e'"
proof (cases "audits_data e = []")
  case True
  with assms have "e' = e" by (simp add: build_lookup_maps_def)
  with True show ?thesis by (simp add: maps_built_def build_lookup_maps_def)
next
  case False
  from build_lookup_maps_frame[OF assms] have f: "data e' = data e" "audits_data e' = audits_data e"
    by simp_all
  have c: "e'\<lparr>audit_name_to_id := [], audit_id_to_name := [], audit_categories := [],
            category_to_audits := []\<rparr>
        = e\<lparr>audit_name_to_id := [], audit_id_to_name := [], audit_categories := [],
            category_to_audits := []\<rparr>"
    using f by (cases e, cases e') simp
  have "build_lookup_maps e'
          = build_loop (e'\<lparr>audit_name_to_id := [], audit_id_to_name := [], audit_categories := [],
                           category_to_audits := []\<rparr>) (audits_data e')"
    using False f by (simp add: build_lookup_maps_def)
  also have "\<dots> = build_loop (e\<lparr>audit_name_to_id := [], audit_id_to_name := [],
                           audit_categories := [], category_to_audits := []\<rparr>) (audits_data e)"
    unfolding c f(2) ..
  also have "\<dots> = (Inr (), e')" using assms False by (simp add: build_lookup_maps_def)
  finally show ?thesis by (simp add: maps_built_def)
qed


lemma build_lookup_maps_complete:
  assumes "list_all complete_row (audits_data e)"
  shows "\<exists>e'. build_lookup_maps e = (Inr (), e')"
proof -
  have "fst (build_lookup_maps e) = Inr ()"
    using build_loop_complete[OF assms] by (simp add: build_lookup_maps_def)
  then show ?thesis by (cases "build_lookup_maps e") simp
qed

lemma build_lookup_maps_incomplete:
  assumes "\<not> list_all complete_row (audits_data e)"
  shows "\<exists>e'. build_lookup_maps e = (Inl AttributeError, e')"
proof -
  from assms have "audits_data e \<noteq> []" by auto
  then have "fst (build_lookup_maps e) = Inl AttributeError"
    using build_loop_incomplete[OF assms] by (simp add: build_lookup_maps_def)
  then show ?thesis by (cases "build_lookup_maps e") simp
qed

lemma maps_built_complete: "maps_built e \<Longrightarrow> list_all complete_row (audits_data e)"
  using build_lookup_maps_incomplete[of e] by (auto simp: maps_built_def)

lemma load_audits_empty:
  "audits_table db = None \<or> audits_table db = Some [] \<Longrightarrow> load_audits_data_from_db db = []"
  by (auto simp: load_audits_data_from_db_def)

lemma refresh_all_data_audits:
  "c_audits (fst (refresh_all_data so now db m)) = load_audits_data_from_db db"
  by (simp add: refresh_all_data_def Let_def)

lemma refresh_all_data_cached:
  "cached (snd (refresh_all_data so now db m)) = Some (fst (refresh_all_data so now db m))"
  by (simp add: refresh_all_data_def Let_def)









lemma fallback_no_audits:
  assumes "get_cached_data m = Some d" "c_audits d = []"
  shows "audits_data (try_cached_fallback (m, x)) = []"
  using assms by (simp add: try_cached_fallback_def)

lemma refresh_no_audits:
  assumes "load_audits_data_from_db db = []"
    and "refresh_data_if_needed so now db (m, e) = (ok, m', e')"
  shows "ok = False \<and> e' = e"
proof -
  obtain fresh m1 where f: "refresh_all_data so now db m = (fresh, m1)"
    by (cases "refresh_all_data so now db m")
  from refresh_all_data_audits[of so now db m] f assms(1) have "c_audits fresh = []" by simp
  with assms(2) f show ?thesis by (simp add: refresh_data_if_needed_def)
qed

lemma refresh_with_audits:
  assumes "load_audits_data_from_db db \<noteq> []"
    and "refresh_data_if_needed so now db (m, e) = (ok, m', e')"
  shows "ok = list_all complete_row (load_audits_data_from_db db)
       \<and> data e' = cached m' \<and> audits_data e' = load_audits_data_from_db db
       \<and> maps_built e' = list_all complete_row (load_audits_data_from_db db)"
proof -
  obtain fresh m1 where f: "refresh_all_data so now db m = (fresh, m1)"
    by (cases "refresh_all_data so now db m")
  from refresh_all_data_audits[of so now db m] f
  have a: "c_audits fresh = load_audits_data_from_db db" by simp
  from refresh_all_data_cached[of so now db m] f have c: "cached m1 = Some fresh" by simp
  let ?e = "e\<lparr>data := Some fresh, audits_data := c_audits fresh\<rparr>"
  obtain r e1 where b: "build_lookup_maps ?e = (r, e1)" by (cases "build_lookup_maps ?e")
  from build_lookup_maps_frame[OF b] a
  have fr: "data e1 = Some fresh" "audits_data e1 = load_audits_data_from_db db" by simp_all
  show ?thesis
  proof (cases "list_all complete_row (load_audits_data_from_db db)")
    case True
    with a have "list_all complete_row (audits_data ?e)" by simp
    from build_lookup_maps_complete[OF this] b obtain "r = Inr ()"
      and b': "build_lookup_maps ?e = (Inr (), e1)" by auto
    with assms f a b have "ok = True" "m' = m1" "e' = e1"
      by (simp_all add: refresh_data_if_needed_def)
    with True fr c maps_built_after[OF b'] show ?thesis by simp
  next
    case False
    with a have "\<not> list_all complete_row (audits_data ?e)" by simp
    from build_lookup_maps_incomplete[OF this] b have "r = Inl AttributeError" by auto
    with assms f a b have "ok = False" "m' = m1" "e' = e1"
      by (simp_all add: refresh_data_if_needed_def)
    moreover have "\<not> maps_built e1" using maps_built_complete[of e1] fr(2) False by auto
    ultimately show ?thesis using False fr c by simp
  qed
qed

lemma new_extractor_no_audits:
  assumes "load_audits_data_from_db db = []"
  shows "audits_data (snd (new_extractor so now db m)) = []"
proof -
  obtain fresh m1 where f: "refresh_all_data so now db m = (fresh, m1)"
    by (cases "refresh_all_data so now db m")
  from refresh_all_data_audits[of so now db m] f assms have a: "c_audits fresh = []" by simp
  from refresh_all_data_cached[of so now db m] f have c: "get_cached_data m1 = Some fresh"
    by (simp add: get_cached_data_def)
  from f a fallback_no_audits[OF c a] show ?thesis
    by (simp add: new_extractor_def load_fresh_audit_data_def)
qed

subsection \<open>The scenario, evaluated\<close>


lemma demo_refresh:
  "refresh_data_if_needed id 1 demo_store (demo_module 0, demo_extractor 0)
     = (True, demo_module 1, demo_extractor 1)"
  by code_simp

lemma demo_extract:
  "extract_audit_entities id 1 demo_store (demo_module 0, demo_extractor 0) text
     = (cascade id (demo_extractor 1) (preprocess_text text), demo_module 1, demo_extractor 1)"
  unfolding extract_audit_entities_def demo_refresh by simp


text \<open>The refresh on the store with the incomplete row, written out.\<close>

lemma null_refresh_half_built:
  "refresh_data_if_needed id 1 null_store (demo_module 0, demo_extractor 0)
     = (False, snd (refresh_all_data id 1 null_store (demo_module 0)),
        \<lparr>data = Some (fst (refresh_all_data id 1 null_store (demo_module 0))),
         audits_data = [demo_audit, port_audit],
         audit_categories = [''network''],
         audit_name_to_id = [(''cisco audit new'', ''16''), (''port audit'', ''17'')],
         audit_id_to_name = [(''16'', ''Cisco Audit New''), (''17'', ''Port Audit'')],
         category_to_audits = [(''network'', [demo_audit])]\<rparr>)"
  by code_simp

subsection \<open>The router\<close>

lemma predict_intent_events:
  "predict_intent f txt = (f (py_lower txt), [LoadPretrained, LoadModelWeights, Inference (py_lower txt)])"
  by (simp add: predict_intent_def new_classifier_def predict_def load_model_def)


lemma handle_with_llm_asked:
  "snd (handle_with_llm w ag um mc scenario) =
     [LLMCreate ([if scenario = ''low_confidence'' then classification_system_message ag
                  else general_system_message ag] @ mc)]"
  by (simp add: handle_with_llm_def Let_def)

lemma insert_engineer_task_stored:
  assumes "insert_engineer_task uid descr ttype db = (Returned (Some tid), db')"
  shows "\<exists>row \<in> set (engineer_tasks db'). row_task_id row = tid \<and> row_user_id row = uid
           \<and> row_request_description row = descr \<and> row_status row = ''pending''"
  using assms by (auto simp: insert_engineer_task_def split: if_splits)

lemma messages_differ: "error_message \<noteq> success_message"
  by (simp add: error_message_def success_message_def)



section \<open>Claims\<close>

text \<open>
  C1. On a non-empty catalog the extraction is a strict priority cascade: the id stage,
  then the exact name stage, then the exact category stage, then the fuzzy name stage,
  then the fuzzy category stage; a stage decides the result exactly when it finds
  something and no earlier stage did. In particular a text with an exact category and
  only a fuzzy audit-name hit gets the result of the exact category stage, of kind
  \<open>category_clarification\<close>.
\<close>

theorem cascade_priority:
  assumes "extract_audit_entities so now db st text = (res, m', e')"
    and "audits_data e' \<noteq> []"
  shows "(id_hit e' (preprocess_text text) \<longrightarrow>
            (\<exists>p m name. p \<in> set audit_id_patterns \<and> m \<in> set (re_findall p (preprocess_text text))
               \<and> map_of (audit_id_to_name e') m = Some name \<and> res = Inr (id_result m name)))
       \<and> (\<not> id_hit e' (preprocess_text text) \<and> name_hit e' (preprocess_text text) \<longrightarrow>
            (\<exists>name aid. (name, aid) \<in> set (audit_name_to_id e') \<and> py_in name (preprocess_text text)
               \<and> res = Inr (name_result name aid)))
       \<and> (\<not> id_hit e' (preprocess_text text) \<and> \<not> name_hit e' (preprocess_text text)
            \<and> category_hit so e' (preprocess_text text) \<longrightarrow>
            (\<exists>c \<in> set (so (audit_categories e')). py_in c (preprocess_text text)
               \<and> res = Inr (category_result e' c ''exact'')))
       \<and> (\<not> id_hit e' (preprocess_text text) \<and> \<not> name_hit e' (preprocess_text text)
            \<and> \<not> category_hit so e' (preprocess_text text)
            \<and> fuzzy_name_hit e' (preprocess_text text) \<longrightarrow>
            (\<exists>n aid. map_of (audit_name_to_id e') n = Some aid
               \<and> 1 / 2 \<le> match_percentage n (preprocess_text text)
               \<and> res = Inr (fuzzy_name_result n aid
                              (85 / 100 * match_percentage n (preprocess_text text)))))
       \<and> (\<not> id_hit e' (preprocess_text text) \<and> \<not> name_hit e' (preprocess_text text)
            \<and> \<not> category_hit so e' (preprocess_text text)
            \<and> \<not> fuzzy_name_hit e' (preprocess_text text)
            \<and> fuzzy_category_hit so e' (preprocess_text text) \<longrightarrow>
            (\<exists>c \<in> set (so (audit_categories e')).
               (\<exists>w \<in> set (py_split (preprocess_text text)). fuzzy_threshold \<le> similarity w c)
               \<and> res = Inr (category_result e' c ''fuzzy'')))
       \<and> (\<not> id_hit e' (preprocess_text text) \<and> \<not> name_hit e' (preprocess_text text)
            \<and> \<not> category_hit so e' (preprocess_text text)
            \<and> \<not> fuzzy_name_hit e' (preprocess_text text)
            \<and> \<not> fuzzy_category_hit so e' (preprocess_text text) \<longrightarrow>
            res = Inr no_match_result)
       \<and> (\<not> id_hit e' (preprocess_text text) \<and> \<not> name_hit e' (preprocess_text text)
            \<and> category_hit so e' (preprocess_text text)
            \<and> fuzzy_name_hit e' (preprocess_text text) \<longrightarrow>
            (\<exists>r. res = Inr r \<and> result_type r = ''category_clarification''))"
proof -
  let ?tc = "preprocess_text text"
  note c = extract_cascade[OF assms(1)]
  have s1: "id_hit e' ?tc \<longrightarrow>
            (\<exists>p m name. p \<in> set audit_id_patterns \<and> m \<in> set (re_findall p ?tc)
               \<and> map_of (audit_id_to_name e') m = Some name \<and> res = Inr (id_result m name))"
    using cascade_id[OF assms(2), of ?tc so] c by simp
  have s2: "\<not> id_hit e' ?tc \<and> name_hit e' ?tc \<longrightarrow>
            (\<exists>name aid. (name, aid) \<in> set (audit_name_to_id e') \<and> py_in name ?tc
               \<and> res = Inr (name_result name aid))"
    using cascade_name[OF assms(2), of ?tc so] c by simp
  have s3: "\<not> id_hit e' ?tc \<and> \<not> name_hit e' ?tc \<and> category_hit so e' ?tc \<longrightarrow>
            (\<exists>c \<in> set (so (audit_categories e')). py_in c ?tc
               \<and> res = Inr (category_result e' c ''exact''))"
    using cascade_category[OF assms(2), of ?tc so] c by simp
  have s4: "\<not> id_hit e' ?tc \<and> \<not> name_hit e' ?tc \<and> \<not> category_hit so e' ?tc
            \<and> fuzzy_name_hit e' ?tc \<longrightarrow>
            (\<exists>n aid. map_of (audit_name_to_id e') n = Some aid
               \<and> 1 / 2 \<le> match_percentage n ?tc
               \<and> res = Inr (fuzzy_name_result n aid (85 / 100 * match_percentage n ?tc)))"
    using cascade_fuzzy_name[OF assms(2), of ?tc so] c by simp
  have s5: "\<not> id_hit e' ?tc \<and> \<not> name_hit e' ?tc \<and> \<not> category_hit so e' ?tc
            \<and> \<not> fuzzy_name_hit e' ?tc \<and> fuzzy_category_hit so e' ?tc \<longrightarrow>
            (\<exists>c \<in> set (so (audit_categories e')).
               (\<exists>w \<in> set (py_split ?tc). fuzzy_threshold \<le> similarity w c)
               \<and> res = Inr (category_result e' c ''fuzzy''))"
    using cascade_fuzzy_category[OF assms(2), of ?tc so] c by simp
  have s6: "\<not> id_hit e' ?tc \<and> \<not> name_hit e' ?tc \<and> \<not> category_hit so e' ?tc
            \<and> \<not> fuzzy_name_hit e' ?tc \<and> \<not> fuzzy_category_hit so e' ?tc \<longrightarrow>
            res = Inr no_match_result"
    using cascade_no_match[OF assms(2), of ?tc so] c by simp
  have s7: "\<not> id_hit e' ?tc \<and> \<not> name_hit e' ?tc \<and> category_hit so e' ?tc
            \<and> fuzzy_name_hit e' ?tc \<longrightarrow>
            (\<exists>r. res = Inr r \<and> result_type r = ''category_clarification'')"
    using s3 by (auto simp: category_result_def)
  from s1 s2 s3 s4 s5 s6 s7 show ?thesis by (intro conjI)
qed

theorem cascade_priority_witness:
  "\<not> id_hit (demo_extractor 1) (preprocess_text ''Network: cisko audt?'')
   \<and> \<not> name_hit (demo_extractor 1) (preprocess_text ''Network: cisko audt?'')
   \<and> category_hit id (demo_extractor 1) (preprocess_text ''Network: cisko audt?'')
   \<and> fuzzy_name_hit (demo_extractor 1) (preprocess_text ''Network: cisko audt?'')
   \<and> (\<exists>r. fst (extract_audit_entities id 1 demo_store (demo_module 0, demo_extractor 0)
                 ''Network: cisko audt?'') = Inr r
          \<and> result_type r = ''category_clarification'')"
proof -
  let ?tc = "preprocess_text ''Network: cisko audt?''"
  have tc: "?tc = ''network cisko audt''" by code_simp
  have a: "audits_data (demo_extractor 1) \<noteq> []" by (simp add: demo_extractor_def)
  have h1: "\<not> id_hit (demo_extractor 1) ''network cisko audt''" by code_simp
  have h2: "\<not> name_hit (demo_extractor 1) ''network cisko audt''" by code_simp
  have h3: "category_hit id (demo_extractor 1) ''network cisko audt''" by code_simp
  have h4: "fuzzy_name_hit (demo_extractor 1) ''network cisko audt''" by code_simp
  from cascade_priority[OF demo_extract a, of "''Network: cisko audt?''"] h1 h2 h3 h4
  have "\<exists>r. cascade id (demo_extractor 1) ?tc = Inr r
            \<and> result_type r = ''category_clarification''"
    unfolding tc by blast
  with h1 h2 h3 h4 show ?thesis unfolding tc demo_extract by simp
qed



text \<open>
  C3 does not hold of the code. The refresh of the extractor, \<open>refresh_data_if_needed\<close>,
  starts with \<open>refresh_all_data\<close>, which replaces the module cache \<open>_cached_data\<close> by what
  it has just fetched, whatever that is. So when the store is unreachable or gives no
  audits, the refresh does return false and leaves the extractor as it was, but the
  previously cached snapshot is gone: the cache holds a dictionary without audits, the
  cached fallback finds nothing in it, and an extractor constructed now holds no audit.
  And when the store gives audits of which one has no name or no category,
  \<open>_build_lookup_maps\<close> raises half-way: the refresh returns false on a snapshot that is
  neither the old one nor a complete new one, with the new audit list and lookup maps
  that are not those of that list. Only when every fetched audit is complete does the
  refresh return true on the new complete snapshot.
\<close>

theorem refresh_outcomes:
  assumes "refresh_data_if_needed so now db (m, e) = (ok, m', e')"
  shows "(\<exists>d. cached m' = Some d \<and> c_audits d = load_audits_data_from_db db)
       \<and> (load_audits_data_from_db db = [] \<longrightarrow>
            ok = False \<and> e' = e
            \<and> (\<forall>x. audits_data (try_cached_fallback (m', x)) = [])
            \<and> audits_data (snd (new_extractor so now db m)) = [])
       \<and> (load_audits_data_from_db db \<noteq> []
            \<and> \<not> list_all complete_row (load_audits_data_from_db db) \<longrightarrow>
            ok = False \<and> data e' = cached m'
            \<and> audits_data e' = load_audits_data_from_db db \<and> \<not> maps_built e')
       \<and> (load_audits_data_from_db db \<noteq> []
            \<and> list_all complete_row (load_audits_data_from_db db) \<longrightarrow>
            ok = True \<and> data e' = cached m'
            \<and> audits_data e' = load_audits_data_from_db db \<and> maps_built e')"
proof -
  have m': "m' = snd (refresh_all_data so now db m)"
    using assms
    by (auto simp: refresh_data_if_needed_def split: prod.splits if_splits sum.splits)
  have c: "cached m' = Some (fst (refresh_all_data so now db m))"
    unfolding m' by (rule refresh_all_data_cached)
  have p1: "\<exists>d. cached m' = Some d \<and> c_audits d = load_audits_data_from_db db"
    using c refresh_all_data_audits[of so now db m] by simp
  have p2: "load_audits_data_from_db db = [] \<longrightarrow>
            ok = False \<and> e' = e
            \<and> (\<forall>x. audits_data (try_cached_fallback (m', x)) = [])
            \<and> audits_data (snd (new_extractor so now db m)) = []"
  proof
    assume l: "load_audits_data_from_db db = []"
    from p1 l obtain d where d: "get_cached_data m' = Some d" "c_audits d = []"
      by (auto simp: get_cached_data_def)
    from refresh_no_audits[OF l assms] fallback_no_audits[OF d] new_extractor_no_audits[OF l]
    show "ok = False \<and> e' = e
            \<and> (\<forall>x. audits_data (try_cached_fallback (m', x)) = [])
            \<and> audits_data (snd (new_extractor so now db m)) = []" by simp
  qed
  have p3: "load_audits_data_from_db db \<noteq> []
            \<and> \<not> list_all complete_row (load_audits_data_from_db db) \<longrightarrow>
            ok = False \<and> data e' = cached m'
            \<and> audits_data e' = load_audits_data_from_db db \<and> \<not> maps_built e'"
    using refresh_with_audits[OF _ assms] by simp
  have p4: "load_audits_data_from_db db \<noteq> []
            \<and> list_all complete_row (load_audits_data_from_db db) \<longrightarrow>
            ok = True \<and> data e' = cached m'
            \<and> audits_data e' = load_audits_data_from_db db \<and> maps_built e'"
    using refresh_with_audits[OF _ assms] by simp
  from p1 p2 p3 p4 show ?thesis by (intro conjI)
qed

text \<open>
  The two failures: the store down while the cache held audit 16, and the store whose
  second audit has no category.
\<close>

theorem refresh_outcomes_witness:
  "c_audits (the (cached (demo_module 0))) = [demo_audit]
   \<and> load_audits_data_from_db down_store = []
   \<and> fst (refresh_data_if_needed id 1 down_store (demo_module 0, demo_extractor 0)) = False
   \<and> snd (snd (refresh_data_if_needed id 1 down_store (demo_module 0, demo_extractor 0)))
       = demo_extractor 0
   \<and> (\<exists>d. cached (fst (snd (refresh_data_if_needed id 1 down_store
                                (demo_module 0, demo_extractor 0)))) = Some d
          \<and> c_audits d = [])
   \<and> audits_data (snd (new_extractor id 1 down_store (demo_module 0))) = []
   \<and> load_audits_data_from_db null_store = [demo_audit, port_audit]
   \<and> fst (refresh_data_if_needed id 1 null_store (demo_module 0, demo_extractor 0)) = False
   \<and> audits_data (snd (snd (refresh_data_if_needed id 1 null_store
                                (demo_module 0, demo_extractor 0))))
       = [demo_audit, port_audit]
   \<and> \<not> maps_built (snd (snd (refresh_data_if_needed id 1 null_store
                                 (demo_module 0, demo_extractor 0))))"
proof -
  let ?r = "refresh_data_if_needed id 1 down_store (demo_module 0, demo_extractor 0)"
  let ?q = "refresh_data_if_needed id 1 null_store (demo_module 0, demo_extractor 0)"
  have r: "?r = (fst ?r, fst (snd ?r), snd (snd ?r))" by simp
  have q: "?q = (fst ?q, fst (snd ?q), snd (snd ?q))" by simp
  have a: "c_audits (the (cached (demo_module 0))) = [demo_audit]"
    by (simp add: demo_module_def demo_cache_def)
  have l: "load_audits_data_from_db down_store = []"
    by (simp add: load_audits_data_from_db_def down_store_def)
  have n: "load_audits_data_from_db null_store = [demo_audit, port_audit]"
    by code_simp
  have i: "\<not> list_all complete_row (load_audits_data_from_db null_store)"
    unfolding n by (simp add: complete_row_def port_audit_def)
  have ne: "load_audits_data_from_db null_store \<noteq> []" unfolding n by simp
  from refresh_outcomes[OF r] l
  have d: "fst ?r = False" "snd (snd ?r) = demo_extractor 0"
    "\<exists>d. cached (fst (snd ?r)) = Some d \<and> c_audits d = []"
    "audits_data (snd (new_extractor id 1 down_store (demo_module 0))) = []"
    by simp_all
  from refresh_outcomes[OF q] i ne
  have h: "fst ?q = False" "audits_data (snd (snd ?q)) = [demo_audit, port_audit]"
    "\<not> maps_built (snd (snd ?q))"
    unfolding n by simp_all
  from a l d n h show ?thesis by (intro conjI)
qed



text \<open>
  C5. The match percentage of an audit name is the number of its words that some text
  word resembles (similarity at least 0.70) over the number of its words. The fuzzy name
  stage returns nothing exactly when no name reaches 0.50; otherwise it returns the first
  name, in the order of the name map, whose percentage is the largest, with confidence
  0.85 times that percentage. A single name with one of four words resembled gives no
  match.
\<close>

theorem fuzzy_name_stage_spec:
  "match_percentage name tc =
     (if py_split name = [] then 0
      else of_nat (length (filter (\<lambda>aw. \<exists>tw \<in> set (py_split tc). 7 / 10 \<le> similarity aw tw)
                             (py_split name)))
           / of_nat (length (py_split name)))
   \<and> (fuzzy_name_stage e tc = None \<longleftrightarrow>
        (\<forall>n \<in> set (map fst (audit_name_to_id e)). match_percentage n tc < 1 / 2))
   \<and> (\<forall>res. fuzzy_name_stage e tc = Some res \<longrightarrow>
        (\<exists>pre n post aid. map fst (audit_name_to_id e) = pre @ n # post
           \<and> map_of (audit_name_to_id e) n = Some aid
           \<and> 1 / 2 \<le> match_percentage n tc
           \<and> (\<forall>m \<in> set pre. match_percentage m tc < match_percentage n tc)
           \<and> (\<forall>m \<in> set post. match_percentage m tc \<le> match_percentage n tc)
           \<and> res = Inr \<lparr>entities =
                           [(''audit_name'', \<lparr>val = n, confidence = 85 / 100 * match_percentage n tc\<rparr>),
                            (''audit_id'', \<lparr>val = aid, confidence = 85 / 100 * match_percentage n tc\<rparr>)],
                         result_type = ''specific_audit'', category_audits = None,
                         success = True\<rparr>))
   \<and> (audit_name_to_id e = [(name, aid0)] \<and> length (py_split name) = 4
        \<and> length (filter (\<lambda>aw. \<exists>tw \<in> set (py_split tc). 7 / 10 \<le> similarity aw tw)
                    (py_split name)) = 1
        \<longrightarrow> match_percentage name tc = 1 / 4 \<and> fuzzy_name_stage e tc = None)"
proof -
  have none: "fuzzy_name_stage e tc = None \<longleftrightarrow>
        (\<forall>n \<in> set (map fst (audit_name_to_id e)). match_percentage n tc < 1 / 2)"
    unfolding fuzzy_name_stage_None fuzzy_name_hit_def list_ex_iff by auto
  have some: "\<forall>res. fuzzy_name_stage e tc = Some res \<longrightarrow>
        (\<exists>pre n post aid. map fst (audit_name_to_id e) = pre @ n # post
           \<and> map_of (audit_name_to_id e) n = Some aid
           \<and> 1 / 2 \<le> match_percentage n tc
           \<and> (\<forall>m \<in> set pre. match_percentage m tc < match_percentage n tc)
           \<and> (\<forall>m \<in> set post. match_percentage m tc \<le> match_percentage n tc)
           \<and> res = Inr \<lparr>entities =
                           [(''audit_name'', \<lparr>val = n, confidence = 85 / 100 * match_percentage n tc\<rparr>),
                            (''audit_id'', \<lparr>val = aid, confidence = 85 / 100 * match_percentage n tc\<rparr>)],
                         result_type = ''specific_audit'', category_audits = None,
                         success = True\<rparr>)"
    using fuzzy_name_stage_Some[of e tc] unfolding fuzzy_name_result_def by blast
  have four: "audit_name_to_id e = [(name, aid0)] \<and> length (py_split name) = 4
        \<and> length (filter (\<lambda>aw. \<exists>tw \<in> set (py_split tc). 7 / 10 \<le> similarity aw tw)
                    (py_split name)) = 1
        \<longrightarrow> match_percentage name tc = 1 / 4 \<and> fuzzy_name_stage e tc = None"
  proof (intro impI, elim conjE)
    assume k: "audit_name_to_id e = [(name, aid0)]" and l: "length (py_split name) = 4"
      and h: "length (filter (\<lambda>aw. \<exists>tw \<in> set (py_split tc). 7 / 10 \<le> similarity aw tw)
                    (py_split name)) = 1"
    from l have "py_split name \<noteq> []" by auto
    then have mp: "match_percentage name tc = 1 / 4"
      unfolding match_percentage_eq using l h by simp
    with k none show "match_percentage name tc = 1 / 4 \<and> fuzzy_name_stage e tc = None"
      by simp
  qed
  from match_percentage_eq[of name tc] none some four show ?thesis by (intro conjI)
qed

theorem fuzzy_name_stage_spec_witness:
  "audit_name_to_id fuzzy_demo = [(''check cisco port status'', ''3'')]
   \<and> length (py_split ''check cisco port status'') = 4
   \<and> length (filter (\<lambda>aw. \<exists>tw \<in> set (py_split ''run cisko audt''). 7 / 10 \<le> similarity aw tw)
                (py_split ''check cisco port status'')) = 1
   \<and> match_percentage ''check cisco port status'' ''run cisko audt'' = 1 / 4
   \<and> fuzzy_name_stage fuzzy_demo ''run cisko audt'' = None
   \<and> fuzzy_name_stage (demo_extractor 1) ''run cisko audt''
       = Some (Inr (fuzzy_name_result ''cisco audit new'' ''16'' (17 / 30)))"
proof -
  have k: "audit_name_to_id fuzzy_demo = [(''check cisco port status'', ''3'')]"
    by (simp add: fuzzy_demo_def)
  have l: "length (py_split ''check cisco port status'') = 4" by code_simp
  have h: "length (filter (\<lambda>aw. \<exists>tw \<in> set (py_split ''run cisko audt''). 7 / 10 \<le> similarity aw tw)
                (py_split ''check cisco port status'')) = 1" by code_simp
  have s: "fuzzy_name_stage (demo_extractor 1) ''run cisko audt''
       = Some (Inr (fuzzy_name_result ''cisco audit new'' ''16'' (17 / 30)))" by code_simp
  from fuzzy_name_stage_spec[of "''check cisco port status''" "''run cisko audt''" fuzzy_demo "''3''"]
    k l h
  have "match_percentage ''check cisco port status'' ''run cisko audt'' = 1 / 4
        \<and> fuzzy_name_stage fuzzy_demo ''run cisko audt'' = None" by blast
  with k l h s show ?thesis by (intro conjI) simp_all
qed




text \<open>
  C7. On the \<open>ENGINEER_AUDIT\<close> route the insertion comes first: an engineer task is
  published only after \<open>insert_engineer_task\<close> has returned its id, not zero, and the
  table then holds the pending row with that id and the user's request. When the
  insertion raises, returns no id or returns the id zero, the only event is the error
  response published to the user's topic, and no engineer task is published. When it
  returns an id, the success response is published to the user's topic, then the
  engineer task. The two responses carry different texts.
\<close>

theorem engineer_route_persists_first:
  assumes "route_to_agent w ag ''ENGINEER_AUDIT'' message = (evs, db')"
    and "insert_engineer_task (session_id w) (extract_user_message message) ''create_new_audit''
           (tasks w) = (out, db1)"
  shows "db' = db1
       \<and> (\<forall>t tp. Publish (EngineerTaskMsg t) tp \<in> set evs \<longrightarrow>
            out = Returned (Some (task_id t)) \<and> task_id t \<noteq> 0
            \<and> audit_description t = extract_user_message message
            \<and> (\<exists>row \<in> set (engineer_tasks db'). row_task_id row = task_id t
                  \<and> row_request_description row = extract_user_message message
                  \<and> row_status row = ''pending''))
       \<and> (out = Raised \<or> out = Returned None \<or> out = Returned (Some 0) \<longrightarrow>
            evs = [Publish
                     (AgentResponseMsg
                        \<lparr>response_ctx = ctx message @ [AssistantMessage error_message (id_type ag)],
                         reply_to_topic_type = agent_topic_type ag\<rparr>)
                     (TopicId (user_topic_type ag) (id_key ag))]
            \<and> \<not> list_ex engineer_publish evs)
       \<and> (\<forall>tid. out = Returned (Some tid) \<and> tid \<noteq> 0 \<longrightarrow>
            evs = [Publish
                     (AgentResponseMsg
                        \<lparr>response_ctx = ctx message @ [AssistantMessage success_message (id_type ag)],
                         reply_to_topic_type = agent_topic_type ag\<rparr>)
                     (TopicId (user_topic_type ag) (id_key ag))]
                  @ (if engineer_publish_raises w then []
                     else [Publish
                             (EngineerTaskMsg
                                \<lparr>task_id = tid, user_id = session_id w,
                                 audit_description = extract_user_message message,
                                 task_type = ''create_new_audit''\<rparr>)
                             (TopicId ENGINEER_AGENT_TOPIC (id_key ag))]))
       \<and> error_message \<noteq> success_message"
proof -
  let ?um = "extract_user_message message"
  let ?reply = "\<lambda>txt. [Publish
                     (AgentResponseMsg
                        \<lparr>response_ctx = ctx message @ [AssistantMessage txt (id_type ag)],
                         reply_to_topic_type = agent_topic_type ag\<rparr>)
                     (TopicId (user_topic_type ag) (id_key ag))]"
  have r: "route_to_agent w ag ''ENGINEER_AUDIT'' message =
     (case (out, db1) of
        (Returned (Some tid), dbx) \<Rightarrow>
          if tid \<noteq> 0
          then (?reply success_message
                @ (if engineer_publish_raises w then []
                   else [Publish
                           (EngineerTaskMsg
                              \<lparr>task_id = tid, user_id = session_id w, audit_description = ?um,
                               task_type = ''create_new_audit''\<rparr>)
                           (TopicId ENGINEER_AGENT_TOPIC (id_key ag))]),
                dbx)
          else (?reply error_message, dbx)
      | (Returned None, dbx) \<Rightarrow> (?reply error_message, dbx)
      | (Raised, dbx) \<Rightarrow> (?reply error_message, dbx))"
    unfolding assms(2)[symmetric] route_to_agent_def send_response_to_user_def
    by (simp add: Let_def)
  have p1: "db' = db1"
    using assms(1) unfolding r by (auto split: outcome.splits option.splits if_splits)
  have p2: "\<forall>t tp. Publish (EngineerTaskMsg t) tp \<in> set evs \<longrightarrow>
            out = Returned (Some (task_id t)) \<and> task_id t \<noteq> 0
            \<and> audit_description t = ?um
            \<and> (\<exists>row \<in> set (engineer_tasks db'). row_task_id row = task_id t
                  \<and> row_request_description row = ?um \<and> row_status row = ''pending'')"
  proof (intro allI impI)
    fix t tp
    assume pub: "Publish (EngineerTaskMsg t) tp \<in> set evs"
    with assms(1) have o: "out = Returned (Some (task_id t))" and nz: "task_id t \<noteq> 0"
      and d: "audit_description t = ?um"
      unfolding r
      by (auto split: outcome.splits option.splits if_splits)
    from insert_engineer_task_stored[OF assms(2)[unfolded o]] p1
    have "\<exists>row \<in> set (engineer_tasks db'). row_task_id row = task_id t
            \<and> row_request_description row = ?um \<and> row_status row = ''pending''"
      by auto
    with o nz d show "out = Returned (Some (task_id t)) \<and> task_id t \<noteq> 0
            \<and> audit_description t = ?um
            \<and> (\<exists>row \<in> set (engineer_tasks db'). row_task_id row = task_id t
                  \<and> row_request_description row = ?um \<and> row_status row = ''pending'')"
      by simp
  qed
  have p3: "out = Raised \<or> out = Returned None \<or> out = Returned (Some 0) \<longrightarrow>
            evs = ?reply error_message \<and> \<not> list_ex engineer_publish evs"
    using assms(1) unfolding r by auto
  have p4: "\<forall>tid. out = Returned (Some tid) \<and> tid \<noteq> 0 \<longrightarrow>
            evs = ?reply success_message
                  @ (if engineer_publish_raises w then []
                     else [Publish
                             (EngineerTaskMsg
                                \<lparr>task_id = tid, user_id = session_id w, audit_description = ?um,
                                 task_type = ''create_new_audit''\<rparr>)
                             (TopicId ENGINEER_AGENT_TOPIC (id_key ag))])"
    using assms(1) unfolding r by auto
  from p1 p2 p3 p4 messages_differ show ?thesis by (intro conjI)
qed

text \<open>A request that is stored, and one whose insertion fails.\<close>

theorem engineer_route_persists_first_witness:
  "route_to_agent (demo_world ''ENGINEER_AUDIT'' (95 / 100) [] demo_tasks) demo_agent
       ''ENGINEER_AUDIT'' (demo_message ''create new audit'')
     = ([Publish
           (AgentResponseMsg
              \<lparr>response_ctx = [UserMessage ''create new audit'' ''User'',
                               AssistantMessage success_message ''OrchestratorAgent''],
               reply_to_topic_type = ''OrchestratorAgent''\<rparr>)
           (TopicId ''User'' ''default''),
         Publish
           (EngineerTaskMsg
              \<lparr>task_id = 7, user_id = ''a1b2c3d4'', audit_description = ''create new audit'',
               task_type = ''create_new_audit''\<rparr>)
           (TopicId ''EngineerAgent'' ''default'')],
        demo_tasks
          \<lparr>next_task_id := 8,
           engineer_tasks :=
             [\<lparr>row_task_id = 7, row_user_id = ''a1b2c3d4'',
               row_request_description = ''create new audit'',
               row_task_type = ''create_new_audit'', row_status = ''pending''\<rparr>]\<rparr>)
   \<and> route_to_agent (demo_world ''ENGINEER_AUDIT'' (95 / 100) [] broken_tasks) demo_agent
       ''ENGINEER_AUDIT'' (demo_message ''create new audit'')
     = ([Publish
           (AgentResponseMsg
              \<lparr>response_ctx = [UserMessage ''create new audit'' ''User'',
                               AssistantMessage error_message ''OrchestratorAgent''],
               reply_to_topic_type = ''OrchestratorAgent''\<rparr>)
           (TopicId ''User'' ''default'')],
        broken_tasks)"
proof -
  let ?m = "demo_message ''create new audit''"
  let ?w = "demo_world ''ENGINEER_AUDIT'' (95 / 100) [] demo_tasks"
  let ?b = "demo_world ''ENGINEER_AUDIT'' (95 / 100) [] broken_tasks"
  let ?db = "demo_tasks
          \<lparr>next_task_id := 8,
           engineer_tasks :=
             [\<lparr>row_task_id = 7, row_user_id = ''a1b2c3d4'',
               row_request_description = ''create new audit'',
               row_task_type = ''create_new_audit'', row_status = ''pending''\<rparr>]\<rparr>"
  have um: "extract_user_message ?m = ''create new audit''"
    by (simp add: extract_user_message_def demo_message_def)
  have i1: "insert_engineer_task (session_id ?w) (extract_user_message ?m) ''create_new_audit''
              (tasks ?w) = (Returned (Some 7), ?db)"
    unfolding um by (simp add: insert_engineer_task_def demo_world_def demo_tasks_def)
  have i2: "insert_engineer_task (session_id ?b) (extract_user_message ?m) ''create_new_audit''
              (tasks ?b) = (Returned None, broken_tasks)"
    unfolding um
    by (simp add: insert_engineer_task_def demo_world_def demo_tasks_def broken_tasks_def)
  have x1: "route_to_agent ?w demo_agent ''ENGINEER_AUDIT'' ?m
              = (fst (route_to_agent ?w demo_agent ''ENGINEER_AUDIT'' ?m),
                 snd (route_to_agent ?w demo_agent ''ENGINEER_AUDIT'' ?m))" by simp
  have x2: "route_to_agent ?b demo_agent ''ENGINEER_AUDIT'' ?m
              = (fst (route_to_agent ?b demo_agent ''ENGINEER_AUDIT'' ?m),
                 snd (route_to_agent ?b demo_agent ''ENGINEER_AUDIT'' ?m))" by simp
  from engineer_route_persists_first[OF x1 i1]
  have a: "snd (route_to_agent ?w demo_agent ''ENGINEER_AUDIT'' ?m) = ?db"
    and b: "fst (route_to_agent ?w demo_agent ''ENGINEER_AUDIT'' ?m)
              = [Publish
                     (AgentResponseMsg
                        \<lparr>response_ctx = ctx ?m @ [AssistantMessage success_message (id_type demo_agent)],
                         reply_to_topic_type = agent_topic_type demo_agent\<rparr>)
                     (TopicId (user_topic_type demo_agent) (id_key demo_agent))]
                @ (if engineer_publish_raises ?w then []
                   else [Publish
                           (EngineerTaskMsg
                              \<lparr>task_id = 7, user_id = session_id ?w,
                               audit_description = extract_user_message ?m,
                               task_type = ''create_new_audit''\<rparr>)
                           (TopicId ENGINEER_AGENT_TOPIC (id_key demo_agent))])"
    by simp_all
  from engineer_route_persists_first[OF x2 i2]
  have c: "snd (route_to_agent ?b demo_agent ''ENGINEER_AUDIT'' ?m) = broken_tasks"
    and d: "fst (route_to_agent ?b demo_agent ''ENGINEER_AUDIT'' ?m)
              = [Publish
                     (AgentResponseMsg
                        \<lparr>response_ctx = ctx ?m @ [AssistantMessage error_message (id_type demo_agent)],
                         reply_to_topic_type = agent_topic_type demo_agent\<rparr>)
                     (TopicId (user_topic_type demo_agent) (id_key demo_agent))]"
    by simp_all
  have e: "engineer_publish_raises ?w = False" "session_id ?w = ''a1b2c3d4''"
    "id_key demo_agent = ''default''" "ENGINEER_AGENT_TOPIC = ''EngineerAgent''"
    "id_type demo_agent = ''OrchestratorAgent''" "agent_topic_type demo_agent = ''OrchestratorAgent''"
    "user_topic_type demo_agent = ''User''" "ctx ?m = [UserMessage ''create new audit'' ''User'']"
    by (simp_all add: demo_world_def demo_agent_def ENGINEER_AGENT_TOPIC_def demo_message_def)
  from b have b': "fst (route_to_agent ?w demo_agent ''ENGINEER_AUDIT'' ?m)
              = [Publish
           (AgentResponseMsg
              \<lparr>response_ctx = [UserMessage ''create new audit'' ''User'',
                               AssistantMessage success_message ''OrchestratorAgent''],
               reply_to_topic_type = ''OrchestratorAgent''\<rparr>)
           (TopicId ''User'' ''default''),
         Publish
           (EngineerTaskMsg
              \<lparr>task_id = 7, user_id = ''a1b2c3d4'', audit_description = ''create new audit'',
               task_type = ''create_new_audit''\<rparr>)
           (TopicId ''EngineerAgent'' ''default'')]"
    unfolding e um by simp
  from d have d': "fst (route_to_agent ?b demo_agent ''ENGINEER_AUDIT'' ?m)
              = [Publish
           (AgentResponseMsg
              \<lparr>response_ctx = [UserMessage ''create new audit'' ''User'',
                               AssistantMessage error_message ''OrchestratorAgent''],
               reply_to_topic_type = ''OrchestratorAgent''\<rparr>)
           (TopicId ''User'' ''default'')]"
    unfolding e by simp
  from a b' c d' show ?thesis by (simp add: prod_eq_iff)
qed

text \<open>
  C8. The extraction always returns a result, never an exception. When the audit list is
  empty after the refresh, which is checked before any stage runs, the result is of kind
  \<open>no_data\<close> with no entity and \<open>success\<close> false; that is the case exactly when the store
  gives no audit and the extractor held none. When the list is not empty and no stage
  finds anything, the result is of kind \<open>no_match\<close> with no entity.
\<close>

theorem extraction_never_raises:
  assumes "extract_audit_entities so now db (m, e) text = (res, m', e')"
  shows "(\<exists>r. res = Inr r)
       \<and> (audits_data e' = [] \<longleftrightarrow> load_audits_data_from_db db = [] \<and> audits_data e = [])
       \<and> (audits_data e' = [] \<longrightarrow>
            res = Inr \<lparr>entities = [], result_type = ''no_data'', category_audits = None,
                        success = False\<rparr>)
       \<and> (audits_data e' \<noteq> []
            \<and> \<not> id_hit e' (preprocess_text text) \<and> \<not> name_hit e' (preprocess_text text)
            \<and> \<not> category_hit so e' (preprocess_text text)
            \<and> \<not> fuzzy_name_hit e' (preprocess_text text)
            \<and> \<not> fuzzy_category_hit so e' (preprocess_text text) \<longrightarrow>
            res = Inr \<lparr>entities = [], result_type = ''no_match'', category_audits = None,
                        success = False\<rparr>)"
proof -
  let ?tc = "preprocess_text text"
  note c = extract_cascade[OF assms]
  have t: "\<exists>r. res = Inr r" using cascade_total[of so e' ?tc] c by simp
  obtain ok where r: "refresh_data_if_needed so now db (m, e) = (ok, m', e')"
    using assms by (auto simp: extract_audit_entities_def split: prod.splits)
  have emp: "audits_data e' = [] \<longleftrightarrow> load_audits_data_from_db db = [] \<and> audits_data e = []"
  proof (cases "load_audits_data_from_db db = []")
    case True
    with refresh_no_audits[OF True r] show ?thesis by simp
  next
    case False
    with refresh_with_audits[OF False r] show ?thesis by simp
  qed
  have nd: "audits_data e' = [] \<longrightarrow>
            res = Inr \<lparr>entities = [], result_type = ''no_data'', category_audits = None,
                        success = False\<rparr>"
    using cascade_no_data[of e' so ?tc] c by (simp add: no_data_result_def)
  have nm: "audits_data e' \<noteq> []
            \<and> \<not> id_hit e' ?tc \<and> \<not> name_hit e' ?tc \<and> \<not> category_hit so e' ?tc
            \<and> \<not> fuzzy_name_hit e' ?tc \<and> \<not> fuzzy_category_hit so e' ?tc \<longrightarrow>
            res = Inr \<lparr>entities = [], result_type = ''no_match'', category_audits = None,
                        success = False\<rparr>"
    using cascade_no_match[of e' ?tc so] c by (simp add: no_match_result_def)
  from t emp nd nm show ?thesis by (intro conjI)
qed

theorem extraction_never_raises_witness:
  "fst (extract_audit_entities id 1 down_store (empty_module, empty_extractor) ''run audit 16'')
     = Inr \<lparr>entities = [], result_type = ''no_data'', category_audits = None, success = False\<rparr>
   \<and> fst (extract_audit_entities id 1 demo_store (demo_module 0, demo_extractor 0) ''hello there'')
     = Inr \<lparr>entities = [], result_type = ''no_match'', category_audits = None, success = False\<rparr>"
proof -
  let ?x = "extract_audit_entities id 1 down_store (empty_module, empty_extractor) ''run audit 16''"
  have x: "?x = (fst ?x, fst (snd ?x), snd (snd ?x))" by simp
  have l: "load_audits_data_from_db down_store = [] \<and> audits_data empty_extractor = []"
    by (simp add: load_audits_data_from_db_def down_store_def empty_extractor_def)
  from extraction_never_raises[OF x] l
  have first: "fst ?x = Inr \<lparr>entities = [], result_type = ''no_data'', category_audits = None,
                            success = False\<rparr>" by blast
  let ?tc = "preprocess_text ''hello there''"
  have tc: "?tc = ''hello there''" by code_simp
  have a: "audits_data (demo_extractor 1) \<noteq> []" by (simp add: demo_extractor_def)
  have h1: "\<not> id_hit (demo_extractor 1) ''hello there''" by code_simp
  have h2: "\<not> name_hit (demo_extractor 1) ''hello there''" by code_simp
  have h3: "\<not> category_hit id (demo_extractor 1) ''hello there''" by code_simp
  have h4: "\<not> fuzzy_name_hit (demo_extractor 1) ''hello there''" by code_simp
  have h5: "\<not> fuzzy_category_hit id (demo_extractor 1) ''hello there''" by code_simp
  from extraction_never_raises[OF demo_extract, of "''hello there''"] a h1 h2 h3 h4 h5
  have "cascade id (demo_extractor 1) ?tc
          = Inr \<lparr>entities = [], result_type = ''no_match'', category_audits = None,
                  success = False\<rparr>"
    unfolding tc by blast
  with first show ?thesis unfolding demo_extract by simp
qed

text \<open>
  C9 (amended). For every pair of strings \<open>a\<close> and \<open>b\<close>, \<open>similarity a b\<close> lies between 0
  and 1. (The symmetry the claim also states does not hold: see the counterexample.)
\<close>

theorem similarity_range: "0 \<le> similarity a b \<and> similarity a b \<le> 1"
  unfolding similarity_def by (rule ratio_range)

theorem similarity_range_witness:
  "0 \<le> similarity ''Tide'' ''diet'' \<and> similarity ''Tide'' ''diet'' \<le> 1"
  using similarity_range [of "''Tide''" "''diet''"] by simp

text \<open>
  C9, as stated, fails: the ratio depends on the order of the arguments, as the
  documentation of \<open>difflib\<close> itself warns with this very pair.
\<close>

theorem similarity_symmetric_counterexample:
  "similarity ''tide'' ''diet'' = 1 / 4 \<and> similarity ''diet'' ''tide'' = 1 / 2
   \<and> similarity ''tide'' ''diet'' \<noteq> similarity ''diet'' ''tide''"
proof -
  have a: "similarity ''tide'' ''diet'' = 1 / 4" by code_simp
  have b: "similarity ''diet'' ''tide'' = 1 / 2" by code_simp
  from a b show ?thesis by simp
qed

text \<open>
  C10 is not what the code does: \<open>predict_intent\<close> builds a new \<open>IntentClassifier\<close> for
  every call, whose \<open>is_loaded\<close> flag starts false, so the persisted weights are read
  once per classified message: the events of classifying a list of messages hold as
  many \<open>LoadModelWeights\<close> as there are messages. An instance that is kept does load
  at most once.
\<close>

theorem weights_loaded_on_every_call:
  "length (filter (\<lambda>e. e = LoadModelWeights) (classify_all f texts)) = length texts
   \<and> length (filter (\<lambda>e. e = LoadModelWeights)
               (classify_all f [''run audit 16'', ''list all audits''])) = 2
   \<and> snd (snd (predict f (fst (snd (predict f (fst new_classifier) txt1))) txt2))
       = [Inference txt2]"
proof -
  have a: "length (filter (\<lambda>e. e = LoadModelWeights) (classify_all f texts)) = length texts"
    for texts
    by (induction texts) (simp_all add: classify_all_def predict_intent_events)
  have b: "snd (snd (predict f (fst (snd (predict f (fst new_classifier) txt1))) txt2))
             = [Inference txt2]"
    by (simp add: predict_def new_classifier_def load_model_def)
  from a[of texts] a[of "[''run audit 16'', ''list all audits'']"] b show ?thesis by simp
qed

end
